theory Spec2Isabelle
  imports Main "HOL-Library.Word"
begin

unbundle bit_operations_syntax

section \<open>The OCR, translation and speech service: \<open>backend/fastapi_backend.py\<close>\<close>

text \<open>
  The module exposes one operation with real logic, \<open>process\<close> (lines 62-122): it
  validates an upload, stores it, runs OCR, and on non-blank text translates it twice
  and synthesises speech three times. OCR (\<open>extract_text\<close>), speech
  (\<open>text_to_speech\<close>), translation (\<open>GoogleTranslator\<close>), image decoding (PIL),
  \<open>uuid.uuid4\<close> and the file system are collaborators outside the file; they are the
  fields of the record \<open>env\<close> below, and every call that can raise returns an option
  (\<open>None\<close>: the call raised).
\<close>

subsection \<open>Strings, paths and identifiers\<close>

text \<open>
  Program strings (paths, content types, language codes) are \<open>string\<close>. Recognised and
  translated text is Python \<open>str\<close> holding Kannada, Hindi or English: a list of
  Unicode code points. Uploaded file contents are \<open>bytes\<close>.
\<close>

type_synonym ustr = "nat list"
type_synonym bytes = "8 word list"

text \<open>\<open>str.startswith\<close> and \<open>str.endswith\<close> with one string argument.\<close>

definition startswith :: "string \<Rightarrow> string \<Rightarrow> bool" where
  "startswith s p = (take (length p) s = p)"

definition endswith :: "string \<Rightarrow> string \<Rightarrow> bool" where
  "endswith s p = (length p \<le> length s \<and> drop (length s - length p) s = p)"

text \<open>
  \<open>str.isspace\<close> of one code point: the white space characters of CPython's
  \<open>_PyUnicode_IsWhitespace\<close>. \<open>str.strip()\<close> without argument removes them at both
  ends.
\<close>

definition isspace :: "nat \<Rightarrow> bool" where
  "isspace c = ((9 \<le> c \<and> c \<le> 13) \<or> (28 \<le> c \<and> c \<le> 32) \<or> c = 133 \<or> c = 160
     \<or> c = 5760 \<or> (8192 \<le> c \<and> c \<le> 8202) \<or> c = 8232 \<or> c = 8233 \<or> c = 8239
     \<or> c = 8287 \<or> c = 12288)"

definition strip :: "ustr \<Rightarrow> ustr" where
  "strip t = rev (dropWhile isspace (rev (dropWhile isspace t)))"

text \<open>
  \<open>os.path.join\<close> with two arguments and \<open>os.path.basename\<close>, as \<open>posixpath\<close>
  defines them (the service runs \<open>/usr/bin/tesseract\<close>).
\<close>

definition path_join :: "string \<Rightarrow> string \<Rightarrow> string" where
  "path_join a b =
     (if startswith b ''/'' then b
      else if a = [] \<or> endswith a ''/'' then a @ b
      else a @ ''/'' @ b)"

definition basename :: "string \<Rightarrow> string" where
  "basename p = rev (takeWhile (\<lambda>c. c \<noteq> CHR ''/'') (rev p))"

text \<open>
  \<open>uuid.uuid4()\<close> is a 128-bit value; its \<open>hex\<close> attribute is the value written as
  32 lower case hexadecimal digits, most significant first.
\<close>

definition hex_digit :: "nat \<Rightarrow> char" where
  "hex_digit n = ''0123456789abcdef'' ! n"

definition nibble :: "128 word \<Rightarrow> nat \<Rightarrow> nat" where
  "nibble u i = unat (drop_bit (4 * i) u AND 15)"

definition hex :: "128 word \<Rightarrow> string" where
  "hex u = map (\<lambda>i. hex_digit (nibble u i)) (rev [0..<32])"

subsection \<open>Data\<close>

text \<open>\<open>UploadFile\<close>: the declared content type (absent when the part has no
  \<open>Content-Type\<close> header) and the bytes \<open>await file.read()\<close> returns.\<close>

record upload_file =
  content_type :: "string option"
  body :: bytes

text \<open>A PIL image: its \<open>mode\<close> and its pixel data.\<close>

record image =
  img_mode :: string
  img_data :: bytes

text \<open>The JSON object \<open>process\<close> returns; \<open>None\<close> is JSON \<open>null\<close>.\<close>

record payload =
  image_url :: string
  text_kn :: ustr
  audio_kn :: "string option"
  text_en :: ustr
  audio_en :: "string option"
  text_hi :: ustr
  audio_hi :: "string option"
  error :: "string option"

text \<open>
  How a request fails: an \<open>HTTPException\<close> raised by \<open>process\<close> itself (status code
  and detail), or any other exception escaping the handler, which FastAPI answers with
  status 500.
\<close>

datatype http_error = HTTPException nat string | InternalServerError

fun status_code :: "http_error \<Rightarrow> nat" where
  "status_code (HTTPException c d) = c"
| "status_code InternalServerError = 500"

text \<open>The observable actions of a request, with their arguments.\<close>

datatype event =
    FileWrite string bytes
  | ExtractText image string
  | Translate string string ustr
  | TextToSpeech ustr string string

text \<open>The collaborators.\<close>

record env =
  base_dir :: string
  uuid4 :: "nat \<Rightarrow> 128 word"
  open_wb :: "string \<Rightarrow> bool"
  image_open :: "bytes \<Rightarrow> image option"
  image_convert :: "image \<Rightarrow> string \<Rightarrow> image option"
  extract_text :: "image \<Rightarrow> string \<Rightarrow> ustr option"
  google_translate :: "string \<Rightarrow> string \<Rightarrow> ustr \<Rightarrow> ustr option"
  text_to_speech :: "ustr \<Rightarrow> string \<Rightarrow> string \<Rightarrow> bool"

text \<open>
  \<^item> \<open>base_dir\<close> is \<open>os.getcwd()\<close> at import.
  \<^item> \<open>uuid4 n\<close> is the value of the \<open>n\<close>-th call of \<open>uuid.uuid4()\<close> in the server
    process.
  \<^item> \<open>open_wb path\<close> tells whether \<open>open(path, "wb")\<close> succeeds.
  \<^item> \<open>image_open\<close> is \<open>Image.open(io.BytesIO(contents))\<close>, \<open>image_convert\<close> is
    \<open>image.convert(mode)\<close>.
  \<^item> \<open>google_translate source target text\<close> is
    \<open>GoogleTranslator(source, target).translate(text)\<close>.
  \<^item> \<open>text_to_speech text lang filename\<close> tells whether the call returns (its value
    is never used); the audio file it writes is its own business.
\<close>

text \<open>
  The state a request runs in: the files \<open>process\<close> itself has written, the number
  of UUIDs drawn so far, and the actions performed so far.
\<close>

record state =
  fs :: "string \<rightharpoonup> bytes"
  uuid_calls :: nat
  trace :: "event list"

subsection \<open>Module constants and helpers\<close>

definition STATIC_DIR :: "env \<Rightarrow> string" where
  "STATIC_DIR e = path_join (base_dir e) ''static''"

definition AUDIO_DIR :: "env \<Rightarrow> string" where
  "AUDIO_DIR e = path_join (STATIC_DIR e) ''audio''"

definition UPLOADS_DIR :: "env \<Rightarrow> string" where
  "UPLOADS_DIR e = path_join (STATIC_DIR e) ''uploads''"

text \<open>\<open>uuid.uuid4().hex\<close>: draws the next UUID.\<close>

definition uuid4_hex :: "env \<Rightarrow> state \<Rightarrow> string \<times> state" where
  "uuid4_hex e s = (hex (uuid4 e (uuid_calls s)), s\<lparr>uuid_calls := Suc (uuid_calls s)\<rparr>)"

definition emit :: "event list \<Rightarrow> state \<Rightarrow> state" where
  "emit evs s = s\<lparr>trace := trace s @ evs\<rparr>"

text \<open>\<open>with open(path, "wb") as f: f.write(contents)\<close>, once the file is open.\<close>

definition write_file :: "string \<Rightarrow> bytes \<Rightarrow> state \<Rightarrow> state" where
  "write_file path contents s =
     emit [FileWrite path contents] (fs_update (\<lambda>m. m(path := Some contents)) s)"

text \<open>Lines 42-49: both helpers hand one blocking call to the executor.\<close>

definition async_tts :: "env \<Rightarrow> ustr \<Rightarrow> string \<Rightarrow> string \<Rightarrow> bool" where
  "async_tts e txt lang filename = text_to_speech e txt lang filename"

definition async_translate :: "env \<Rightarrow> ustr \<Rightarrow> string \<Rightarrow> ustr option" where
  "async_translate e txt target_lang = google_translate e ''kn'' target_lang txt"

subsection \<open>The operation \<open>process\<close>\<close>

text \<open>
  Lines 97-122, the path taken when the text is not blank. The five adapter calls run
  as tasks; the trace lists them in the order the tasks are created (the order in
  which concurrent tasks run is the subject of the scheduling model further down).
  The three tasks of lines 103-105 are created before the first \<open>await\<close>, so all
  three calls are made even when one fails; the tasks of lines 109-110 are created
  only when both translations have returned.
\<close>

definition pipeline :: "env \<Rightarrow> string \<Rightarrow> ustr \<Rightarrow> state \<Rightarrow> (http_error + payload) \<times> state" where
  "pipeline e upload_filename txt_kn s =
    (let (u1, s1) = uuid4_hex e s;
         audio_kn_file = path_join (AUDIO_DIR e) (u1 @ ''_kn.mp3'');
         (u2, s2) = uuid4_hex e s1;
         audio_en_file = path_join (AUDIO_DIR e) (u2 @ ''_en.mp3'');
         (u3, s3) = uuid4_hex e s2;
         audio_hi_file = path_join (AUDIO_DIR e) (u3 @ ''_hi.mp3'');
         s4 = emit [Translate ''kn'' ''en'' txt_kn, Translate ''kn'' ''hi'' txt_kn,
                    TextToSpeech txt_kn ''kn'' audio_kn_file] s3
     in case async_translate e txt_kn ''en'' of
          None \<Rightarrow> (Inl InternalServerError, s4)
        | Some txt_en \<Rightarrow>
     (case async_translate e txt_kn ''hi'' of
          None \<Rightarrow> (Inl InternalServerError, s4)
        | Some txt_hi \<Rightarrow>
       (let s5 = emit [TextToSpeech txt_en ''en'' audio_en_file,
                       TextToSpeech txt_hi ''hi'' audio_hi_file] s4
        in if async_tts e txt_kn ''kn'' audio_kn_file
              \<and> async_tts e txt_en ''en'' audio_en_file
              \<and> async_tts e txt_hi ''hi'' audio_hi_file
           then (Inr \<lparr>image_url = ''/static/uploads/'' @ upload_filename,
                      text_kn = txt_kn,
                      audio_kn = Some (''/static/audio/'' @ basename audio_kn_file),
                      text_en = txt_en,
                      audio_en = Some (''/static/audio/'' @ basename audio_en_file),
                      text_hi = txt_hi,
                      audio_hi = Some (''/static/audio/'' @ basename audio_hi_file),
                      error = None\<rparr>, s5)
           else (Inl InternalServerError, s5))))"

text \<open>
  Lines 62-95. A missing content type makes \<open>file.content_type.startswith\<close> raise
  \<open>AttributeError\<close>.
\<close>

definition process :: "env \<Rightarrow> upload_file \<Rightarrow> state \<Rightarrow> (http_error + payload) \<times> state" where
  "process e file s =
    (case content_type file of
       None \<Rightarrow> (Inl InternalServerError, s)
     | Some ct \<Rightarrow>
       if \<not> startswith ct ''image/''
       then (Inl (HTTPException 400 ''File must be an image''), s)
       else
         let contents = body file in
         if contents = [] then (Inl (HTTPException 400 ''Empty file''), s)
         else
           let (u0, s1) = uuid4_hex e s;
               upload_filename = u0 @ ''.jpg'';
               upload_path = path_join (UPLOADS_DIR e) upload_filename
           in if \<not> open_wb e upload_path then (Inl InternalServerError, s1)
              else
                let s2 = write_file upload_path contents s1
                in (case image_open e contents of
                     None \<Rightarrow> (Inl InternalServerError, s2)
                   | Some image0 \<Rightarrow>
                (case (if img_mode image0 \<noteq> ''RGB'' then image_convert e image0 ''RGB''
                       else Some image0) of
                     None \<Rightarrow> (Inl InternalServerError, s2)
                   | Some img \<Rightarrow>
                  (let s3 = emit [ExtractText img upload_filename] s2
                   in case extract_text e img upload_filename of
                        None \<Rightarrow> (Inl InternalServerError, s3)
                      | Some txt_kn \<Rightarrow>
                          if strip txt_kn = []
                          then (Inr \<lparr>image_url = ''/static/uploads/'' @ upload_filename,
                                     text_kn = [], audio_kn = None,
                                     text_en = [], audio_en = None,
                                     text_hi = [], audio_hi = None,
                                     error = Some ''No text found''\<rparr>, s3)
                          else pipeline e upload_filename txt_kn s3))))"

text \<open>The actions of one request: what \<open>process\<close> appends to the trace.\<close>

definition events_of :: "env \<Rightarrow> upload_file \<Rightarrow> state \<Rightarrow> event list" where
  "events_of e file s = drop (length (trace s)) (trace (snd (process e file s)))"


fun translate_calls :: "event list \<Rightarrow> (string \<times> ustr) list" where
  "translate_calls [] = []"
| "translate_calls (Translate src tgt txt # evs) = (tgt, txt) # translate_calls evs"
| "translate_calls (ev # evs) = translate_calls evs"

fun tts_calls :: "event list \<Rightarrow> (ustr \<times> string \<times> string) list" where
  "tts_calls [] = []"
| "tts_calls (TextToSpeech txt lang filename # evs) = (txt, lang, filename) # tts_calls evs"
| "tts_calls (ev # evs) = tts_calls evs"



text \<open>
  The names of the files a request stores or has synthesised: the last component of
  every path it writes to or hands to \<open>text_to_speech\<close>.
\<close>

fun file_names :: "event list \<Rightarrow> string list" where
  "file_names [] = []"
| "file_names (FileWrite path contents # evs) = basename path # file_names evs"
| "file_names (TextToSpeech txt lang filename # evs) = basename filename # file_names evs"
| "file_names (ev # evs) = file_names evs"

text \<open>The UUIDs a request draws: those between its first and its last state.\<close>

definition drawn :: "env \<Rightarrow> upload_file \<Rightarrow> state \<Rightarrow> 128 word list" where
  "drawn e file s = map (uuid4 e) [uuid_calls s ..< uuid_calls (snd (process e file s))]"

subsection \<open>Names for the parts of a request\<close>

text \<open>
  The theorems below speak about the file names and the intermediate states of
  \<open>process\<close>. The definitions here only name them; lemma \<open>process_from_ocr\<close> shows
  that \<open>process\<close> is made of these parts.
\<close>

text \<open>The name and the path an accepted upload is stored under (lines 73-74), drawn
  from the first UUID of the request.\<close>

definition upload_name :: "env \<Rightarrow> state \<Rightarrow> string" where
  "upload_name e s = hex (uuid4 e (uuid_calls s)) @ ''.jpg''"

definition upload_path :: "env \<Rightarrow> state \<Rightarrow> string" where
  "upload_path e s = path_join (UPLOADS_DIR e) (upload_name e s)"

text \<open>The audio path made from the \<open>n\<close>-th UUID of the server (lines 98-100).\<close>

definition audio_file :: "env \<Rightarrow> nat \<Rightarrow> string \<Rightarrow> string" where
  "audio_file e n suffix = path_join (AUDIO_DIR e) (hex (uuid4 e n) @ suffix)"

text \<open>The image handed to OCR (lines 78-80).\<close>

definition normalised :: "env \<Rightarrow> image \<Rightarrow> image option" where
  "normalised e image0 =
     (if img_mode image0 \<noteq> ''RGB'' then image_convert e image0 ''RGB'' else Some image0)"

text \<open>The state in which OCR has just been called on \<open>img\<close> (after line 83).\<close>

definition at_ocr :: "env \<Rightarrow> upload_file \<Rightarrow> image \<Rightarrow> state \<Rightarrow> state" where
  "at_ocr e file img s =
     emit [ExtractText img (upload_name e s)]
       (write_file (upload_path e s) (body file) (s\<lparr>uuid_calls := Suc (uuid_calls s)\<rparr>))"

text \<open>\<open>process\<close> from line 83 on.\<close>

definition from_ocr :: "env \<Rightarrow> upload_file \<Rightarrow> image \<Rightarrow> state \<Rightarrow> (http_error + payload) \<times> state"
  where
  "from_ocr e file img s =
     (case extract_text e img (upload_name e s) of
        None \<Rightarrow> (Inl InternalServerError, at_ocr e file img s)
      | Some t \<Rightarrow>
          if strip t = []
          then (Inr \<lparr>image_url = ''/static/uploads/'' @ upload_name e s,
                     text_kn = [], audio_kn = None,
                     text_en = [], audio_en = None,
                     text_hi = [], audio_hi = None,
                     error = Some ''No text found''\<rparr>, at_ocr e file img s)
          else pipeline e (upload_name e s) t (at_ocr e file img s))"

text \<open>A request that gets as far as calling OCR, on the image \<open>img\<close>: it passes both
  checks, its file can be written and its bytes decode.\<close>

definition reaches_ocr :: "env \<Rightarrow> upload_file \<Rightarrow> state \<Rightarrow> image \<Rightarrow> bool" where
  "reaches_ocr e file s img =
     (\<exists>ct image0. content_type file = Some ct \<and> startswith ct ''image/'' \<and> body file \<noteq> []
        \<and> open_wb e (upload_path e s) \<and> image_open e (body file) = Some image0
        \<and> normalised e image0 = Some img)"

section \<open>The scheduling of lines 103-111\<close>

text \<open>
  \<open>process\<close> is a coroutine on a single-threaded event loop. \<open>asyncio.create_task\<close>
  schedules a task and returns at once; the task begins to run only when the loop gets
  control, that is when \<open>process\<close> is suspended in an \<open>await\<close> (lines 107 and 111) or
  has ended. A task that runs hands its blocking call to an executor thread and
  finishes, or fails, when that call returns or raises. \<open>asyncio.gather\<close> resumes the
  awaiting coroutine when all its tasks have finished, and raises in it as soon as one
  of them has failed.

  The model keeps the line \<open>process\<close> is at and the status of the five tasks.
\<close>

datatype task = TransEn | TransHi | TtsKn | TtsEn | TtsHi

datatype task_status = NotCreated | Scheduled | Running | Finished | Failed

datatype pc = L103 | L104 | L105 | L107 | L109 | L110 | L111 | Returned | Raised

record sched =
  at :: pc
  trans_en_task :: task_status
  trans_hi_task :: task_status
  tts_kn_task :: task_status
  tts_en_task :: task_status
  tts_hi_task :: task_status

fun status_of :: "task \<Rightarrow> sched \<Rightarrow> task_status" where
  "status_of TransEn c = trans_en_task c"
| "status_of TransHi c = trans_hi_task c"
| "status_of TtsKn c = tts_kn_task c"
| "status_of TtsEn c = tts_en_task c"
| "status_of TtsHi c = tts_hi_task c"

fun set_status :: "task \<Rightarrow> task_status \<Rightarrow> sched \<Rightarrow> sched" where
  "set_status TransEn v c = c\<lparr>trans_en_task := v\<rparr>"
| "set_status TransHi v c = c\<lparr>trans_hi_task := v\<rparr>"
| "set_status TtsKn v c = c\<lparr>tts_kn_task := v\<rparr>"
| "set_status TtsEn v c = c\<lparr>tts_en_task := v\<rparr>"
| "set_status TtsHi v c = c\<lparr>tts_hi_task := v\<rparr>"

text \<open>\<open>create_task\<close> at one line, then on to the next.\<close>

definition create_task :: "task \<Rightarrow> pc \<Rightarrow> sched \<Rightarrow> sched" where
  "create_task t next c = (set_status t Scheduled c)\<lparr>at := next\<rparr>"

text \<open>
  \<open>await asyncio.gather(...)\<close> over the tasks \<open>ts\<close>: raises when one has failed,
  goes on when all have finished, and otherwise stays suspended (\<open>None\<close>: no step).
\<close>

definition gather :: "task list \<Rightarrow> pc \<Rightarrow> sched \<Rightarrow> sched option" where
  "gather ts next c =
     (if \<exists>t \<in> set ts. status_of t c = Failed then Some (c\<lparr>at := Raised\<rparr>)
      else if \<forall>t \<in> set ts. status_of t c = Finished then Some (c\<lparr>at := next\<rparr>)
      else None)"

text \<open>One step of \<open>process\<close> itself, line by line.\<close>

fun step_main :: "pc \<Rightarrow> sched \<Rightarrow> sched option" where
  "step_main L103 c = Some (create_task TransEn L104 c)"
| "step_main L104 c = Some (create_task TransHi L105 c)"
| "step_main L105 c = Some (create_task TtsKn L107 c)"
| "step_main L107 c = gather [TransEn, TransHi] L109 c"
| "step_main L109 c = Some (create_task TtsEn L110 c)"
| "step_main L110 c = Some (create_task TtsHi L111 c)"
| "step_main L111 c = gather [TtsKn, TtsEn, TtsHi] Returned c"
| "step_main Returned c = None"
| "step_main Raised c = None"

text \<open>The loop has control when \<open>process\<close> is in an \<open>await\<close> or has ended.\<close>

fun loop_has_control :: "pc \<Rightarrow> bool" where
  "loop_has_control L107 = True"
| "loop_has_control L111 = True"
| "loop_has_control Returned = True"
| "loop_has_control Raised = True"
| "loop_has_control p = False"

text \<open>What can happen next: a step of \<open>process\<close>, or a task starts, finishes or fails.\<close>

datatype action = Main | Start task | Finish task | Fail task

definition task_step :: "task \<Rightarrow> task_status \<Rightarrow> task_status \<Rightarrow> sched \<Rightarrow> sched option" where
  "task_step t before after c =
     (if loop_has_control (at c) \<and> status_of t c = before then Some (set_status t after c)
      else None)"

fun step :: "action \<Rightarrow> sched \<Rightarrow> sched option" where
  "step Main c = step_main (at c) c"
| "step (Start t) c = task_step t Scheduled Running c"
| "step (Finish t) c = task_step t Running Finished c"
| "step (Fail t) c = task_step t Running Failed c"

text \<open>A run: a sequence of actions, each enabled when its turn comes.\<close>

fun exec :: "action list \<Rightarrow> sched \<Rightarrow> sched option" where
  "exec [] c = Some c"
| "exec (a # as) c = (case step a c of None \<Rightarrow> None | Some c' \<Rightarrow> exec as c')"

definition initial :: sched where
  "initial = \<lparr>at = L103, trans_en_task = NotCreated, trans_hi_task = NotCreated,
     tts_kn_task = NotCreated, tts_en_task = NotCreated, tts_hi_task = NotCreated\<rparr>"

fun launched :: "task_status \<Rightarrow> bool" where
  "launched NotCreated = False"
| "launched v = True"

fun started :: "task_status \<Rightarrow> bool" where
  "started NotCreated = False"
| "started Scheduled = False"
| "started v = True"

fun completed :: "task_status \<Rightarrow> bool" where
  "completed Finished = True"
| "completed Failed = True"
| "completed v = False"

text \<open>
  The order as the specification words it: neither of the two later synthesis tasks is
  launched before all three earlier tasks have completed.
\<close>

definition waves_as_specified :: "sched \<Rightarrow> bool" where
  "waves_as_specified c =
     (launched (tts_en_task c) \<or> launched (tts_hi_task c) \<longrightarrow>
        completed (trans_en_task c) \<and> completed (trans_hi_task c) \<and> completed (tts_kn_task c))"

text \<open>
  The order the code keeps: the three earlier tasks are created before any task
  starts; the two later synthesis tasks are launched only when both translations have
  finished; and \<open>process\<close> returns only when all five tasks have finished.
\<close>

definition waves_as_coded :: "sched \<Rightarrow> bool" where
  "waves_as_coded c =
     ((started (trans_en_task c) \<or> started (trans_hi_task c) \<or> started (tts_kn_task c) \<longrightarrow>
         launched (trans_en_task c) \<and> launched (trans_hi_task c) \<and> launched (tts_kn_task c))
      \<and> (launched (tts_en_task c) \<or> launched (tts_hi_task c) \<longrightarrow>
         trans_en_task c = Finished \<and> trans_hi_task c = Finished)
      \<and> (at c = Returned \<longrightarrow>
         trans_en_task c = Finished \<and> trans_hi_task c = Finished \<and> tts_kn_task c = Finished
         \<and> tts_en_task c = Finished \<and> tts_hi_task c = Finished))"

text \<open>
  What holds at each line of \<open>process\<close>, whatever the tasks have done so far: the
  invariant behind the order of the two waves.
\<close>

definition wave_invariant :: "sched \<Rightarrow> bool" where
  "wave_invariant c =
     (case at c of
        L103 \<Rightarrow> trans_en_task c = NotCreated \<and> trans_hi_task c = NotCreated
                \<and> tts_kn_task c = NotCreated
                \<and> tts_en_task c = NotCreated \<and> tts_hi_task c = NotCreated
      | L104 \<Rightarrow> trans_en_task c = Scheduled \<and> trans_hi_task c = NotCreated
                \<and> tts_kn_task c = NotCreated
                \<and> tts_en_task c = NotCreated \<and> tts_hi_task c = NotCreated
      | L105 \<Rightarrow> trans_en_task c = Scheduled \<and> trans_hi_task c = Scheduled
                \<and> tts_kn_task c = NotCreated
                \<and> tts_en_task c = NotCreated \<and> tts_hi_task c = NotCreated
      | L107 \<Rightarrow> launched (trans_en_task c) \<and> launched (trans_hi_task c)
                \<and> launched (tts_kn_task c)
                \<and> tts_en_task c = NotCreated \<and> tts_hi_task c = NotCreated
      | L109 \<Rightarrow> trans_en_task c = Finished \<and> trans_hi_task c = Finished
                \<and> launched (tts_kn_task c)
                \<and> tts_en_task c = NotCreated \<and> tts_hi_task c = NotCreated
      | L110 \<Rightarrow> trans_en_task c = Finished \<and> trans_hi_task c = Finished
                \<and> launched (tts_kn_task c)
                \<and> tts_en_task c = Scheduled \<and> tts_hi_task c = NotCreated
      | L111 \<Rightarrow> trans_en_task c = Finished \<and> trans_hi_task c = Finished
                \<and> launched (tts_kn_task c)
                \<and> launched (tts_en_task c) \<and> launched (tts_hi_task c)
      | Returned \<Rightarrow> trans_en_task c = Finished \<and> trans_hi_task c = Finished
                \<and> tts_kn_task c = Finished
                \<and> tts_en_task c = Finished \<and> tts_hi_task c = Finished
      | Raised \<Rightarrow> launched (trans_en_task c) \<and> launched (trans_hi_task c)
                \<and> launched (tts_kn_task c)
                \<and> (tts_en_task c = NotCreated \<and> tts_hi_task c = NotCreated
                    \<or> trans_en_task c = Finished \<and> trans_hi_task c = Finished))"

section \<open>Sample collaborators and requests\<close>

text \<open>
  A concrete environment to run the model in: UUIDs count up from zero, every file
  opens, images decode in mode \<open>RGBA\<close> with the upload's bytes as data, the OCR reads
  each byte as a code point, translation appends a letter naming the target.
\<close>

definition demo_env :: env where
  "demo_env = \<lparr>base_dir = ''/app'',
     uuid4 = word_of_nat,
     open_wb = (\<lambda>path. True),
     image_open = (\<lambda>contents. Some \<lparr>img_mode = ''RGBA'', img_data = contents\<rparr>),
     image_convert = (\<lambda>img m. Some (img\<lparr>img_mode := m\<rparr>)),
     extract_text = (\<lambda>img name. Some (map unat (img_data img))),
     google_translate = (\<lambda>src tgt txt. Some (txt @ (if tgt = ''en'' then [101] else [104]))),
     text_to_speech = (\<lambda>txt lang filename. True)\<rparr>"


definition demo_state :: "nat \<Rightarrow> state" where
  "demo_state n = \<lparr>fs = Map.empty, uuid_calls = n, trace = []\<rparr>"

text \<open>A PNG upload whose "text" is the letter A, one that is a single blank, an
  empty one, and a text file.\<close>

definition png_upload :: upload_file where
  "png_upload = \<lparr>content_type = Some ''image/png'', body = [65]\<rparr>"

definition blank_upload :: upload_file where
  "blank_upload = \<lparr>content_type = Some ''image/jpeg'', body = [32]\<rparr>"

definition empty_upload :: upload_file where
  "empty_upload = \<lparr>content_type = Some ''image/png'', body = []\<rparr>"


section \<open>Facts about paths, white space and identifiers\<close>

lemma endswith_slashD: "endswith a ''/'' \<Longrightarrow> \<exists>pre. a = pre @ ''/''"
proof -
  assume "endswith a ''/''"
  then have d: "drop (length a - 1) a = ''/''"
    by (simp add: endswith_def)
  have "take (length a - 1) a @ drop (length a - 1) a = a"
    by (rule append_take_drop_id)
  with d have "a = take (length a - 1) a @ ''/''" by simp
  then show ?thesis ..
qed

lemma path_join_cases:
  assumes nb: "CHR ''/'' \<notin> set b"
  shows "path_join a b = b \<or> (\<exists>pre. path_join a b = pre @ ''/'' @ b)"
proof -
  from nb have ns: "\<not> startswith b ''/''"
    by (cases b) (auto simp: startswith_def)
  show ?thesis
  proof (cases "a = []")
    case True
    with ns show ?thesis by (simp add: path_join_def)
  next
    case ne: False
    show ?thesis
    proof (cases "endswith a ''/''")
      case True
      then obtain pre where a: "a = pre @ ''/''"
        using endswith_slashD by blast
      from ns True have "path_join a b = a @ b"
        by (simp add: path_join_def)
      with a have "path_join a b = pre @ ''/'' @ b" by simp
      then show ?thesis by blast
    next
      case False
      with ns ne have "path_join a b = a @ ''/'' @ b"
        by (simp add: path_join_def)
      then show ?thesis by blast
    qed
  qed
qed

lemma basename_slash: "CHR ''/'' \<notin> set b \<Longrightarrow> basename (pre @ ''/'' @ b) = b"
proof -
  assume "CHR ''/'' \<notin> set b"
  then have "takeWhile (\<lambda>c. c \<noteq> CHR ''/'') (rev b @ CHR ''/'' # rev pre) = rev b"
    by (subst takeWhile_append2) auto
  then show ?thesis by (simp add: basename_def)
qed

lemma basename_plain: "CHR ''/'' \<notin> set b \<Longrightarrow> basename b = b"
proof -
  assume "CHR ''/'' \<notin> set b"
  then have "takeWhile (\<lambda>c. c \<noteq> CHR ''/'') (rev b) = rev b"
    by (intro takeWhile_eq_all_conv[THEN iffD2]) auto
  then show ?thesis unfolding basename_def by (simp only: rev_rev_ident)
qed

lemma basename_path_join:
  assumes nb: "CHR ''/'' \<notin> set b"
  shows "basename (path_join a b) = b"
proof -
  from path_join_cases[OF nb, of a] show ?thesis
  proof
    assume "path_join a b = b"
    then show ?thesis using basename_plain[OF nb] by simp
  next
    assume "\<exists>pre. path_join a b = pre @ ''/'' @ b"
    then obtain pre where "path_join a b = pre @ ''/'' @ b" ..
    then show ?thesis using basename_slash[OF nb, of pre] by simp
  qed
qed

lemma path_join_suffix: "\<exists>pre. path_join a b = pre @ b"
proof -
  have "path_join a b = [] @ b \<or> path_join a b = a @ b \<or> path_join a b = (a @ ''/'') @ b"
    by (simp add: path_join_def)
  then show ?thesis by blast
qed

lemma endswith_same_length: "length p = length q \<Longrightarrow> endswith (x @ p) q \<longleftrightarrow> p = q"
  by (auto simp: endswith_def)

lemma endswith_path_join:
  assumes l: "length p = length q"
  shows "endswith (path_join a (u @ p)) q \<longleftrightarrow> p = q"
proof -
  obtain pre where "path_join a (u @ p) = pre @ (u @ p)"
    using path_join_suffix by blast
  then have "path_join a (u @ p) = (pre @ u) @ p" by simp
  then show ?thesis using endswith_same_length[OF l, of "pre @ u"] by simp
qed

lemma strip_blank: "strip t = [] \<longleftrightarrow> (\<forall>c \<in> set t. isspace c)"
proof
  assume "strip t = []"
  then have all: "\<forall>x \<in> set (dropWhile isspace t). isspace x"
    by (simp add: strip_def dropWhile_eq_Nil_conv)
  have "dropWhile isspace t = []"
  proof (rule ccontr)
    assume ne: "dropWhile isspace t \<noteq> []"
    then have "\<not> isspace (hd (dropWhile isspace t))" by (rule hd_dropWhile)
    moreover have "hd (dropWhile isspace t) \<in> set (dropWhile isspace t)"
      using ne by (rule hd_in_set)
    ultimately show False using all by blast
  qed
  then show "\<forall>c \<in> set t. isspace c" by (simp only: dropWhile_eq_Nil_conv)
next
  assume "\<forall>c \<in> set t. isspace c"
  then have "dropWhile isspace t = []" by (simp only: dropWhile_eq_Nil_conv)
  then show "strip t = []" unfolding strip_def by (simp only: rev.simps dropWhile.simps)
qed

lemma nibble_lt: "nibble u i < 16"
proof -
  have "unat (drop_bit (4 * i) u AND 15) \<le> unat (15 :: 128 word)"
    by (rule word_and_le1 [THEN word_le_nat_alt [THEN iffD1]])
  then show ?thesis by (simp add: nibble_def)
qed

lemma hex_digit_inj: "m < 16 \<Longrightarrow> n < 16 \<Longrightarrow> hex_digit m = hex_digit n \<Longrightarrow> m = n"
proof -
  have d: "distinct ''0123456789abcdef''" by simp
  assume "m < 16" "n < 16" "hex_digit m = hex_digit n"
  then show "m = n" unfolding hex_digit_def
    using d nth_eq_iff_index_eq[OF d, of m n] by simp
qed

lemma hex_digit_no_slash: "n < 16 \<Longrightarrow> hex_digit n \<noteq> CHR ''/''"
proof -
  assume "n < 16"
  then have "hex_digit n \<in> set ''0123456789abcdef''"
    unfolding hex_digit_def by (intro nth_mem) simp
  then show ?thesis by auto
qed

lemma hex_no_slash: "CHR ''/'' \<notin> set (hex u)"
proof
  assume "CHR ''/'' \<in> set (hex u)"
  then obtain i where "hex_digit (nibble u i) = CHR ''/''" by (auto simp: hex_def)
  then show False using hex_digit_no_slash[OF nibble_lt, of u i] by simp
qed

lemma bit_nibble: "j < 4 \<Longrightarrow> bit (drop_bit (4 * i) u AND (15 :: 128 word)) j \<longleftrightarrow> bit u (4 * i + j)"
proof -
  assume j: "j < 4"
  have m: "(15 :: 128 word) = mask 4" by (simp add: mask_eq_exp_minus_1)
  show ?thesis unfolding m using j by (simp add: bit_and_iff bit_drop_bit_eq bit_mask_iff)
qed

lemma hex_inj: "hex u = hex v \<Longrightarrow> u = v"
proof -
  assume eq: "hex u = hex v"
  have nib: "nibble u i = nibble v i" if "i < 32" for i
  proof -
    have "hex_digit (nibble u i) = hex_digit (nibble v i)"
      using eq that by (auto simp: hex_def)
    then show ?thesis using hex_digit_inj nibble_lt by blast
  qed
  show "u = v"
  proof (rule bit_word_eqI)
    fix n assume "n < LENGTH(128)"
    then have n: "n div 4 < 32" "n mod 4 < 4" "4 * (n div 4) + n mod 4 = n" by simp_all
    have "drop_bit (4 * (n div 4)) u AND 15 = drop_bit (4 * (n div 4)) v AND 15"
      using nib[OF n(1)] unfolding nibble_def by (rule word_unat_eq_iff[THEN iffD2])
    then have "bit (drop_bit (4 * (n div 4)) u AND 15) (n mod 4) = bit (drop_bit (4 * (n div 4)) v AND 15) (n mod 4)"
      by simp
    then show "bit u n = bit v n" using bit_nibble[OF n(2)] n(3) by simp
  qed
qed

section \<open>Validation\<close>

text \<open>
  A request that declares a content type not beginning with \<open>image/\<close>, and a request
  that declares an image content type and has an empty body, both fail with status
  400. The state is then as it was before the request: no file has been written, no
  UUID drawn and no collaborator called.
\<close>

lemma process_rejects_declared_upload:
  assumes "content_type file = Some ct"
    and "\<not> startswith ct ''image/'' \<or> body file = []"
  shows "(\<exists>err. process e file s = (Inl err, s) \<and> status_code err = 400)
    \<and> fs (snd (process e file s)) = fs s
    \<and> events_of e file s = []"
  using assms by (auto simp: process_def events_of_def)

text \<open>
  C3. The claim is that every request whose declared content type does not begin with
  \<open>image/\<close> fails with status 400. A file part without a \<open>Content-Type\<close> header
  declares none: \<open>file.content_type\<close> is \<open>None\<close>, line 65 calls \<open>startswith\<close> on
  it, and the \<open>AttributeError\<close> leaves the handler. Such a request, whatever its body,
  fails with status 500 and not 400; it writes no file and calls no collaborator.
\<close>

theorem upload_without_content_type_is_500:
  "process e \<lparr>content_type = None, body = b\<rparr> s = (Inl InternalServerError, s)
   \<and> status_code InternalServerError = 500
   \<and> status_code InternalServerError \<noteq> 400
   \<and> events_of e \<lparr>content_type = None, body = b\<rparr> s = []"
  by (simp add: process_def events_of_def)

section \<open>The steps of a request\<close>

lemma trace_emit: "trace (emit evs s) = trace s @ evs"
  by (simp add: emit_def)

lemma uuid_calls_emit: "uuid_calls (emit evs s) = uuid_calls s"
  by (simp add: emit_def)

lemma fs_emit: "fs (emit evs s) = fs s"
  by (simp add: emit_def)

lemma trace_write_file: "trace (write_file path contents s) = trace s @ [FileWrite path contents]"
  by (simp add: write_file_def emit_def)

lemma uuid_calls_write_file: "uuid_calls (write_file path contents s) = uuid_calls s"
  by (simp add: write_file_def emit_def)

lemma fs_write_file: "fs (write_file path contents s) = (fs s)(path := Some contents)"
  by (simp add: write_file_def emit_def)

text \<open>What \<open>pipeline\<close> appends to the trace, how many UUIDs it draws, and that it
  writes no file itself.\<close>

lemma pipeline_trace:
  "trace (snd (pipeline e name t s)) = trace s @
     [Translate ''kn'' ''en'' t, Translate ''kn'' ''hi'' t,
      TextToSpeech t ''kn'' (audio_file e (uuid_calls s) ''_kn.mp3'')] @
     (case google_translate e ''kn'' ''en'' t of None \<Rightarrow> [] | Some t_en \<Rightarrow>
       (case google_translate e ''kn'' ''hi'' t of None \<Rightarrow> [] | Some t_hi \<Rightarrow>
          [TextToSpeech t_en ''en'' (audio_file e (Suc (uuid_calls s)) ''_en.mp3''),
           TextToSpeech t_hi ''hi'' (audio_file e (Suc (Suc (uuid_calls s))) ''_hi.mp3'')]))"
  by (simp add: pipeline_def uuid4_hex_def emit_def async_translate_def audio_file_def
      Let_def split: option.splits)

lemma pipeline_uuid_calls:
  "uuid_calls (snd (pipeline e name t s)) = Suc (Suc (Suc (uuid_calls s)))"
  by (simp add: pipeline_def uuid4_hex_def emit_def Let_def split: option.splits)

lemma pipeline_fs: "fs (snd (pipeline e name t s)) = fs s"
  by (simp add: pipeline_def uuid4_hex_def emit_def Let_def split: option.splits)

text \<open>The payload of \<open>pipeline\<close>, when it returns one.\<close>

lemma pipeline_payload:
  assumes "fst (pipeline e name t s) = Inr p"
  shows "\<exists>t_en t_hi.
      google_translate e ''kn'' ''en'' t = Some t_en
    \<and> google_translate e ''kn'' ''hi'' t = Some t_hi
    \<and> p = \<lparr>image_url = ''/static/uploads/'' @ name,
           text_kn = t,
           audio_kn = Some (''/static/audio/'' @ basename (audio_file e (uuid_calls s) ''_kn.mp3'')),
           text_en = t_en,
           audio_en = Some (''/static/audio/''
                        @ basename (audio_file e (Suc (uuid_calls s)) ''_en.mp3'')),
           text_hi = t_hi,
           audio_hi = Some (''/static/audio/''
                        @ basename (audio_file e (Suc (Suc (uuid_calls s))) ''_hi.mp3'')),
           error = None\<rparr>"
  using assms
  by (simp add: pipeline_def uuid4_hex_def emit_def async_translate_def audio_file_def
      Let_def split: option.splits if_splits)

text \<open>\<open>pipeline\<close> returns a payload when no adapter call fails.\<close>

lemma pipeline_returns:
  assumes "google_translate e ''kn'' ''en'' t = Some t_en"
    and "google_translate e ''kn'' ''hi'' t = Some t_hi"
    and "text_to_speech e t ''kn'' (audio_file e (uuid_calls s) ''_kn.mp3'')"
    and "text_to_speech e t_en ''en'' (audio_file e (Suc (uuid_calls s)) ''_en.mp3'')"
    and "text_to_speech e t_hi ''hi'' (audio_file e (Suc (Suc (uuid_calls s))) ''_hi.mp3'')"
  shows "\<exists>p. fst (pipeline e name t s) = Inr p"
  using assms
  by (simp add: pipeline_def uuid4_hex_def emit_def async_translate_def async_tts_def
      audio_file_def Let_def)

text \<open>When \<open>pipeline\<close> returns a payload, the three synthesis calls it has made, on
  the three texts of the payload, have all returned.\<close>

lemma pipeline_tts:
  assumes "fst (pipeline e name t s) = Inr p"
  shows "text_to_speech e (text_kn p) ''kn'' (audio_file e (uuid_calls s) ''_kn.mp3'')
    \<and> text_to_speech e (text_en p) ''en'' (audio_file e (Suc (uuid_calls s)) ''_en.mp3'')
    \<and> text_to_speech e (text_hi p) ''hi''
         (audio_file e (Suc (Suc (uuid_calls s))) ''_hi.mp3'')"
  using assms
  by (auto simp: pipeline_def uuid4_hex_def emit_def async_translate_def async_tts_def
      audio_file_def Let_def split: option.splits if_splits)

text \<open>The state in which OCR has just been called.\<close>

lemma trace_at_ocr:
  "trace (at_ocr e file img s)
     = trace s @ [FileWrite (upload_path e s) (body file), ExtractText img (upload_name e s)]"
  by (simp add: at_ocr_def trace_emit trace_write_file)

lemma uuid_calls_at_ocr: "uuid_calls (at_ocr e file img s) = Suc (uuid_calls s)"
  by (simp add: at_ocr_def uuid_calls_emit uuid_calls_write_file)

lemma fs_at_ocr: "fs (at_ocr e file img s) = (fs s)(upload_path e s := Some (body file))"
  by (simp add: at_ocr_def fs_emit fs_write_file)

text \<open>A request that reaches OCR goes on as \<open>from_ocr\<close> says.\<close>

lemma process_from_ocr:
  assumes "reaches_ocr e file s img"
  shows "process e file s = from_ocr e file img s"
  using assms
  by (auto simp: reaches_ocr_def process_def from_ocr_def at_ocr_def normalised_def
      upload_name_def upload_path_def uuid4_hex_def Let_def split: option.splits)

text \<open>A request that does not reach OCR fails, having at most stored the upload.\<close>

lemma process_not_reaching:
  assumes "\<forall>img. \<not> reaches_ocr e file s img"
  shows "(\<exists>err. fst (process e file s) = Inl err)
    \<and> (events_of e file s = [] \<or> events_of e file s = [FileWrite (upload_path e s) (body file)])
    \<and> (uuid_calls (snd (process e file s)) = uuid_calls s
        \<and> events_of e file s = []
       \<or> uuid_calls (snd (process e file s)) = Suc (uuid_calls s))"
  using assms
  by (auto simp: reaches_ocr_def process_def events_of_def normalised_def
      upload_name_def upload_path_def uuid4_hex_def trace_write_file uuid_calls_write_file
      Let_def split: option.splits)

text \<open>The actions of a request that reaches OCR.\<close>

lemma events_from_ocr:
  assumes "reaches_ocr e file s img"
  shows "events_of e file s =
     [FileWrite (upload_path e s) (body file), ExtractText img (upload_name e s)] @
     (case extract_text e img (upload_name e s) of None \<Rightarrow> [] | Some t \<Rightarrow>
        if strip t = [] then [] else
          [Translate ''kn'' ''en'' t, Translate ''kn'' ''hi'' t,
           TextToSpeech t ''kn'' (audio_file e (Suc (uuid_calls s)) ''_kn.mp3'')] @
          (case google_translate e ''kn'' ''en'' t of None \<Rightarrow> [] | Some t_en \<Rightarrow>
            (case google_translate e ''kn'' ''hi'' t of None \<Rightarrow> [] | Some t_hi \<Rightarrow>
               [TextToSpeech t_en ''en'' (audio_file e (Suc (Suc (uuid_calls s))) ''_en.mp3''),
                TextToSpeech t_hi ''hi''
                  (audio_file e (Suc (Suc (Suc (uuid_calls s)))) ''_hi.mp3'')])))"
  unfolding events_of_def process_from_ocr[OF assms] from_ocr_def
  by (simp add: trace_at_ocr pipeline_trace uuid_calls_at_ocr split: option.splits)

text \<open>An OCR call in the trace of a request tells that the request reached OCR.\<close>

lemma ocr_event_reaches:
  assumes "ExtractText img name \<in> set (events_of e file s)"
  shows "reaches_ocr e file s img \<and> name = upload_name e s"
proof (cases "\<exists>img'. reaches_ocr e file s img'")
  case False
  then have "events_of e file s = []
      \<or> events_of e file s = [FileWrite (upload_path e s) (body file)]"
    using process_not_reaching by blast
  with assms show ?thesis by auto
next
  case True
  then obtain img' where r: "reaches_ocr e file s img'" ..
  from assms have "img = img' \<and> name = upload_name e s"
    unfolding events_from_ocr[OF r] by (auto split: option.splits if_splits)
  with r show ?thesis by simp
qed

text \<open>The files of a request: it writes the upload or nothing.\<close>

lemma process_fs_reaching:
  assumes "reaches_ocr e file s img"
  shows "fs (snd (process e file s)) = (fs s)(upload_path e s := Some (body file))"
  unfolding process_from_ocr[OF assms] from_ocr_def
  by (simp add: fs_at_ocr pipeline_fs split: option.splits)

text \<open>A request that returns a payload has reached OCR and got a text from it.\<close>

lemma process_payload_cases:
  assumes "fst (process e file s) = Inr p"
  shows "\<exists>img t. reaches_ocr e file s img \<and> extract_text e img (upload_name e s) = Some t
    \<and> (strip t = []
         \<and> p = \<lparr>image_url = ''/static/uploads/'' @ upload_name e s,
                 text_kn = [], audio_kn = None, text_en = [], audio_en = None,
                 text_hi = [], audio_hi = None, error = Some ''No text found''\<rparr>
       \<or> strip t \<noteq> [] \<and> fst (pipeline e (upload_name e s) t (at_ocr e file img s)) = Inr p)"
proof (cases "\<exists>img. reaches_ocr e file s img")
  case False
  then have "\<exists>err. fst (process e file s) = Inl err"
    using process_not_reaching by blast
  with assms show ?thesis by auto
next
  case True
  then obtain img where r: "reaches_ocr e file s img" ..
  from assms have "fst (from_ocr e file img s) = Inr p"
    unfolding process_from_ocr[OF r] .
  then have "\<exists>t. extract_text e img (upload_name e s) = Some t
    \<and> (strip t = []
         \<and> p = \<lparr>image_url = ''/static/uploads/'' @ upload_name e s,
                 text_kn = [], audio_kn = None, text_en = [], audio_en = None,
                 text_hi = [], audio_hi = None, error = Some ''No text found''\<rparr>
       \<or> strip t \<noteq> [] \<and> fst (pipeline e (upload_name e s) t (at_ocr e file img s)) = Inr p)"
    by (auto simp: from_ocr_def split: option.splits if_splits)
  with r show ?thesis by blast
qed

section \<open>The sample requests\<close>

lemma demo_reaches_png:
  "reaches_ocr demo_env png_upload (demo_state n) \<lparr>img_mode = ''RGB'', img_data = [65]\<rparr>"
  by (simp add: reaches_ocr_def demo_env_def png_upload_def normalised_def startswith_def)

lemma demo_reaches_blank:
  "reaches_ocr demo_env blank_upload (demo_state n) \<lparr>img_mode = ''RGB'', img_data = [32]\<rparr>"
  by (simp add: reaches_ocr_def demo_env_def blank_upload_def normalised_def startswith_def)

lemma demo_upload_name:
  "upload_name demo_env (demo_state 0) = ''00000000000000000000000000000000.jpg''"
  by code_simp

lemma demo_upload_path:
  "upload_path demo_env (demo_state 0)
     = ''/app/static/uploads/00000000000000000000000000000000.jpg''"
  by code_simp

lemma demo_events_blank:
  "events_of demo_env blank_upload (demo_state 0) =
     [FileWrite ''/app/static/uploads/00000000000000000000000000000000.jpg'' [32],
      ExtractText \<lparr>img_mode = ''RGB'', img_data = [32]\<rparr>
        ''00000000000000000000000000000000.jpg'']"
  unfolding events_from_ocr[OF demo_reaches_blank] demo_upload_name demo_upload_path
  by (simp add: demo_env_def blank_upload_def strip_def isspace_def)

lemma demo_audio_files:
  "audio_file demo_env (Suc 0) ''_kn.mp3''
     = ''/app/static/audio/00000000000000000000000000000001_kn.mp3''"
  "audio_file demo_env (Suc (Suc 0)) ''_en.mp3''
     = ''/app/static/audio/00000000000000000000000000000002_en.mp3''"
  "audio_file demo_env (Suc (Suc (Suc 0))) ''_hi.mp3''
     = ''/app/static/audio/00000000000000000000000000000003_hi.mp3''"
  by code_simp+

lemma demo_events_png:
  "events_of demo_env png_upload (demo_state 0) =
     [FileWrite ''/app/static/uploads/00000000000000000000000000000000.jpg'' [65],
      ExtractText \<lparr>img_mode = ''RGB'', img_data = [65]\<rparr>
        ''00000000000000000000000000000000.jpg'',
      Translate ''kn'' ''en'' [65],
      Translate ''kn'' ''hi'' [65],
      TextToSpeech [65] ''kn'' ''/app/static/audio/00000000000000000000000000000001_kn.mp3'',
      TextToSpeech [65, 101] ''en''
        ''/app/static/audio/00000000000000000000000000000002_en.mp3'',
      TextToSpeech [65, 104] ''hi''
        ''/app/static/audio/00000000000000000000000000000003_hi.mp3'']"
proof -
  have u: "uuid_calls (demo_state 0) = 0" by (simp add: demo_state_def)
  have x: "extract_text demo_env \<lparr>img_mode = ''RGB'', img_data = [65]\<rparr>
       ''00000000000000000000000000000000.jpg'' = Some [65]"
    by (simp add: demo_env_def)
  have n: "strip [65] \<noteq> []" by (simp add: strip_def isspace_def)
  have t: "google_translate demo_env ''kn'' ''en'' [65] = Some [65, 101]"
    "google_translate demo_env ''kn'' ''hi'' [65] = Some [65, 104]"
    by (simp_all add: demo_env_def)
  have b: "body png_upload = [65]" by (simp add: png_upload_def)
  show ?thesis
    unfolding events_from_ocr[OF demo_reaches_png] demo_upload_name demo_upload_path u
      demo_audio_files
    by (simp add: x n t b)
qed

section \<open>The short circuit on blank text\<close>

text \<open>
  C2. When the text OCR returns is empty or consists of white space only, \<open>process\<close>
  returns the payload with three empty texts, three null audio fields and the error
  message \<open>No text found\<close>, and the request has made no translation and no
  speech-synthesis call.
\<close>

theorem blank_text_short_circuits:
  assumes "ExtractText img name \<in> set (events_of e file s)"
    and "extract_text e img name = Some t"
    and "\<forall>c \<in> set t. isspace c"
  shows "fst (process e file s) =
      Inr \<lparr>image_url = ''/static/uploads/'' @ name,
           text_kn = [], audio_kn = None, text_en = [], audio_en = None,
           text_hi = [], audio_hi = None, error = Some ''No text found''\<rparr>
    \<and> translate_calls (events_of e file s) = []
    \<and> tts_calls (events_of e file s) = []"
proof -
  from assms(1) have r: "reaches_ocr e file s img" and n: "name = upload_name e s"
    using ocr_event_reaches by blast+
  from assms(3) have b: "strip t = []" by (simp add: strip_blank)
  from assms(2) n have x: "extract_text e img (upload_name e s) = Some t" by simp
  have "fst (process e file s) =
      Inr \<lparr>image_url = ''/static/uploads/'' @ name,
           text_kn = [], audio_kn = None, text_en = [], audio_en = None,
           text_hi = [], audio_hi = None, error = Some ''No text found''\<rparr>"
    unfolding process_from_ocr[OF r] from_ocr_def by (simp add: x b n)
  moreover have "events_of e file s
      = [FileWrite (upload_path e s) (body file), ExtractText img (upload_name e s)]"
    unfolding events_from_ocr[OF r] by (simp add: x b)
  ultimately show ?thesis by simp
qed

theorem blank_text_short_circuits_witness:
  "extract_text demo_env \<lparr>img_mode = ''RGB'', img_data = [32]\<rparr>
       ''00000000000000000000000000000000.jpg'' = Some [32]
   \<and> isspace 32
   \<and> fst (process demo_env blank_upload (demo_state 0)) =
      Inr \<lparr>image_url = ''/static/uploads/00000000000000000000000000000000.jpg'',
           text_kn = [], audio_kn = None, text_en = [], audio_en = None,
           text_hi = [], audio_hi = None, error = Some ''No text found''\<rparr>
   \<and> translate_calls (events_of demo_env blank_upload (demo_state 0)) = []
   \<and> tts_calls (events_of demo_env blank_upload (demo_state 0)) = []"
proof -
  have m: "ExtractText \<lparr>img_mode = ''RGB'', img_data = [32]\<rparr>
             ''00000000000000000000000000000000.jpg''
           \<in> set (events_of demo_env blank_upload (demo_state 0))"
    unfolding demo_events_blank by simp
  have x: "extract_text demo_env \<lparr>img_mode = ''RGB'', img_data = [32]\<rparr>
       ''00000000000000000000000000000000.jpg'' = Some [32]"
    by (simp add: demo_env_def)
  have b: "\<forall>c \<in> set [32]. isspace c" by (simp add: isspace_def)
  have i: "isspace 32" by (simp add: isspace_def)
  from blank_text_short_circuits[OF m x b] x i show ?thesis by simp
qed

section \<open>The image handed to OCR\<close>

text \<open>
  C8. Whenever \<open>process\<close> calls OCR, the image it passes is the decoded upload itself
  when that is in mode \<open>RGB\<close>, and otherwise the result of converting the decoded
  upload to \<open>RGB\<close>; so the image passed is in mode \<open>RGB\<close>, given that PIL's
  \<open>convert("RGB")\<close> returns an image of that mode. It is what the OCR adapter
  answers on that image, and no other, that the request goes on with: when the adapter
  raises on it the request fails with status 500, when it returns blank text the
  \<open>No text found\<close> payload is returned, and when it returns other text that text is
  translated and is the \<open>text_kn\<close> of every payload returned.
\<close>

theorem ocr_gets_rgb_image:
  assumes "ExtractText img name \<in> set (events_of e file s)"
  shows "(\<exists>image0. image_open e (body file) = Some image0
             \<and> (if img_mode image0 = ''RGB'' then img = image0
                 else image_convert e image0 ''RGB'' = Some img))
    \<and> ((\<forall>i j. image_convert e i ''RGB'' = Some j \<longrightarrow> img_mode j = ''RGB'')
          \<longrightarrow> img_mode img = ''RGB'')
    \<and> (extract_text e img name = None \<longrightarrow> fst (process e file s) = Inl InternalServerError)
    \<and> (\<forall>t. extract_text e img name = Some t \<longrightarrow>
          (strip t = [] \<longrightarrow>
             (\<exists>p. fst (process e file s) = Inr p \<and> error p = Some ''No text found''))
        \<and> (strip t \<noteq> [] \<longrightarrow>
             Translate ''kn'' ''en'' t \<in> set (events_of e file s)
           \<and> Translate ''kn'' ''hi'' t \<in> set (events_of e file s)
           \<and> (\<forall>p. fst (process e file s) = Inr p \<longrightarrow> text_kn p = t \<and> error p = None)))"
proof -
  from assms have r: "reaches_ocr e file s img" and n: "name = upload_name e s"
    using ocr_event_reaches by blast+
  from r obtain image0 where o: "image_open e (body file) = Some image0"
    and c: "normalised e image0 = Some img"
    unfolding reaches_ocr_def by blast
  from c have d: "if img_mode image0 = ''RGB'' then img = image0
                 else image_convert e image0 ''RGB'' = Some img"
    by (simp add: normalised_def split: if_splits)
  then have 2: "(\<forall>i j. image_convert e i ''RGB'' = Some j \<longrightarrow> img_mode j = ''RGB'')
          \<longrightarrow> img_mode img = ''RGB''"
    by (auto split: if_splits)
  from o d have 1: "\<exists>image0. image_open e (body file) = Some image0
             \<and> (if img_mode image0 = ''RGB'' then img = image0
                 else image_convert e image0 ''RGB'' = Some img)"
    by blast
  have 3: "fst (process e file s) = Inl InternalServerError"
    if "extract_text e img name = None"
    using that unfolding process_from_ocr[OF r] from_ocr_def n by simp
  have 4: "\<exists>p. fst (process e file s) = Inr p \<and> error p = Some ''No text found''"
    if "extract_text e img name = Some t" and "strip t = []" for t
    using that unfolding process_from_ocr[OF r] from_ocr_def n by simp
  have 5: "Translate ''kn'' ''en'' t \<in> set (events_of e file s)
           \<and> Translate ''kn'' ''hi'' t \<in> set (events_of e file s)
           \<and> (\<forall>p. fst (process e file s) = Inr p \<longrightarrow> text_kn p = t \<and> error p = None)"
    if x: "extract_text e img name = Some t" and nb: "strip t \<noteq> []" for t
  proof -
    from x n have x': "extract_text e img (upload_name e s) = Some t" by simp
    have ev: "Translate ''kn'' ''en'' t \<in> set (events_of e file s)
           \<and> Translate ''kn'' ''hi'' t \<in> set (events_of e file s)"
      unfolding events_from_ocr[OF r] using x' nb by simp
    have pr: "process e file s = pipeline e (upload_name e s) t (at_ocr e file img s)"
      unfolding process_from_ocr[OF r] from_ocr_def using x' nb by simp
    have "text_kn p = t \<and> error p = None" if "fst (process e file s) = Inr p" for p
    proof -
      from that have "fst (pipeline e (upload_name e s) t (at_ocr e file img s)) = Inr p"
        unfolding pr .
      from pipeline_payload[OF this] show ?thesis by auto
    qed
    with ev show ?thesis by blast
  qed
  from 1 2 3 4 5 show ?thesis by blast
qed

theorem ocr_gets_rgb_image_witness:
  "ExtractText \<lparr>img_mode = ''RGB'', img_data = [65]\<rparr> ''00000000000000000000000000000000.jpg''
      \<in> set (events_of demo_env png_upload (demo_state 0))
   \<and> image_open demo_env (body png_upload) = Some \<lparr>img_mode = ''RGBA'', img_data = [65]\<rparr>
   \<and> image_convert demo_env \<lparr>img_mode = ''RGBA'', img_data = [65]\<rparr> ''RGB''
        = Some \<lparr>img_mode = ''RGB'', img_data = [65]\<rparr>
   \<and> img_mode \<lparr>img_mode = ''RGB'', img_data = [65]\<rparr> = ''RGB''
   \<and> extract_text demo_env \<lparr>img_mode = ''RGB'', img_data = [65]\<rparr>
        ''00000000000000000000000000000000.jpg'' = Some [65]
   \<and> Translate ''kn'' ''en'' [65] \<in> set (events_of demo_env png_upload (demo_state 0))
   \<and> Translate ''kn'' ''hi'' [65] \<in> set (events_of demo_env png_upload (demo_state 0))"
proof -
  have m: "ExtractText \<lparr>img_mode = ''RGB'', img_data = [65]\<rparr>
             ''00000000000000000000000000000000.jpg''
           \<in> set (events_of demo_env png_upload (demo_state 0))"
    unfolding events_from_ocr[OF demo_reaches_png] demo_upload_name by simp
  have c: "\<forall>i j. image_convert demo_env i ''RGB'' = Some j \<longrightarrow> img_mode j = ''RGB''"
    by (auto simp: demo_env_def)
  have o: "image_open demo_env (body png_upload) = Some \<lparr>img_mode = ''RGBA'', img_data = [65]\<rparr>"
    by (simp add: demo_env_def png_upload_def)
  have v: "image_convert demo_env \<lparr>img_mode = ''RGBA'', img_data = [65]\<rparr> ''RGB''
        = Some \<lparr>img_mode = ''RGB'', img_data = [65]\<rparr>"
    by (simp add: demo_env_def)
  have x: "extract_text demo_env \<lparr>img_mode = ''RGB'', img_data = [65]\<rparr>
        ''00000000000000000000000000000000.jpg'' = Some [65]"
    by (simp add: demo_env_def)
  have nb: "strip [65] \<noteq> []" by (simp add: strip_def isspace_def)
  note T = ocr_gets_rgb_image[OF m]
  from T c have g: "img_mode \<lparr>img_mode = ''RGB'', img_data = [65]\<rparr> = ''RGB''" by blast
  from T x nb have t: "Translate ''kn'' ''en'' [65]
          \<in> set (events_of demo_env png_upload (demo_state 0))
      \<and> Translate ''kn'' ''hi'' [65] \<in> set (events_of demo_env png_upload (demo_state 0))"
    by blast
  from m o v g x t show ?thesis by simp
qed

section \<open>Storing the upload\<close>

text \<open>An upload that passes both checks and whose file opens is written first, under
  the name made at line 73, and nothing else is written.\<close>

lemma process_accepted:
  assumes "content_type file = Some ct" and "startswith ct ''image/''" and "body file \<noteq> []"
    and "open_wb e (upload_path e s)"
  shows "(\<exists>evs. events_of e file s = FileWrite (upload_path e s) (body file) # evs
             \<and> (\<forall>p c. FileWrite p c \<notin> set evs))
    \<and> fs (snd (process e file s)) = (fs s)(upload_path e s := Some (body file))"
proof (cases "\<exists>img. reaches_ocr e file s img")
  case True
  then obtain img where r: "reaches_ocr e file s img" ..
  have "\<exists>evs. events_of e file s = FileWrite (upload_path e s) (body file) # evs
             \<and> (\<forall>p c. FileWrite p c \<notin> set evs)"
    unfolding events_from_ocr[OF r] by (auto split: option.splits)
  with process_fs_reaching[OF r] show ?thesis by simp
next
  case False
  then have n: "\<And>image0. image_open e (body file) = Some image0 \<Longrightarrow> normalised e image0 = None"
    using assms unfolding reaches_ocr_def by (cases "normalised e image0") auto
  show ?thesis
    using assms n
    by (auto simp: process_def events_of_def normalised_def upload_path_def upload_name_def
        uuid4_hex_def trace_write_file fs_write_file Let_def split: option.splits)
qed

lemma upload_name_basename: "basename (upload_path e s) = upload_name e s"
proof -
  have "CHR ''/'' \<notin> set (hex (uuid4 e (uuid_calls s)) @ ''.jpg'')"
    using hex_no_slash by simp
  then show ?thesis
    unfolding upload_path_def upload_name_def by (rule basename_path_join)
qed

lemma upload_path_jpg: "endswith (upload_path e s) ''.jpg''"
  unfolding upload_path_def upload_name_def
  using endswith_path_join[of "''.jpg''" "''.jpg''"] by simp

text \<open>
  C9. Every upload that passes the two checks of lines 65-70 and whose file can be
  opened is stored under a name ending in \<open>.jpg\<close>, whatever image content type it
  declares, and what is stored are the uploaded bytes themselves: the first action of
  the request is that write, it is the only write, and the file holds the bytes
  afterwards.
\<close>

theorem upload_stored_as_jpg:
  assumes "content_type file = Some ct" and "startswith ct ''image/''" and "body file \<noteq> []"
    and "open_wb e (upload_path e s)"
  shows "\<exists>path evs. events_of e file s = FileWrite path (body file) # evs
      \<and> (\<forall>p c. FileWrite p c \<notin> set evs)
      \<and> endswith path ''.jpg'' \<and> endswith (basename path) ''.jpg''
      \<and> fs (snd (process e file s)) path = Some (body file)"
proof -
  from process_accepted[OF assms] obtain evs
    where "events_of e file s = FileWrite (upload_path e s) (body file) # evs"
      and "\<forall>p c. FileWrite p c \<notin> set evs"
      and "fs (snd (process e file s)) (upload_path e s) = Some (body file)"
    by auto
  moreover have "endswith (upload_path e s) ''.jpg''" by (rule upload_path_jpg)
  moreover have "endswith (basename (upload_path e s)) ''.jpg''"
    unfolding upload_name_basename by (simp add: upload_name_def endswith_def)
  ultimately show ?thesis by blast
qed

theorem upload_stored_as_jpg_witness:
  "content_type png_upload = Some ''image/png''
   \<and> startswith ''image/png'' ''image/''
   \<and> body png_upload = [65]
   \<and> hd (events_of demo_env png_upload (demo_state 0))
       = FileWrite ''/app/static/uploads/00000000000000000000000000000000.jpg'' [65]
   \<and> endswith ''/app/static/uploads/00000000000000000000000000000000.jpg'' ''.jpg''
   \<and> fs (snd (process demo_env png_upload (demo_state 0)))
        ''/app/static/uploads/00000000000000000000000000000000.jpg'' = Some [65]"
proof -
  have a: "content_type png_upload = Some ''image/png''" by (simp add: png_upload_def)
  have b: "startswith ''image/png'' ''image/''" by (simp add: startswith_def)
  have c: "body png_upload \<noteq> []" and c': "body png_upload = [65]"
    by (simp_all add: png_upload_def)
  have d: "open_wb demo_env (upload_path demo_env (demo_state 0))"
    by (simp add: demo_env_def)
  from upload_stored_as_jpg[OF a b c d] obtain path evs
    where ev: "events_of demo_env png_upload (demo_state 0)
                 = FileWrite path (body png_upload) # evs"
      and j: "endswith path ''.jpg''"
      and f: "fs (snd (process demo_env png_upload (demo_state 0))) path
                 = Some (body png_upload)"
    by blast
  from ev have p: "path = ''/app/static/uploads/00000000000000000000000000000000.jpg''"
    unfolding demo_events_png by simp
  from ev have h: "hd (events_of demo_env png_upload (demo_state 0))
       = FileWrite path (body png_upload)" by simp
  from a b c' h j f show ?thesis unfolding p by simp
qed

section \<open>The upload on the short-circuit path\<close>

text \<open>
  C10. When \<open>process\<close> returns the \<open>No text found\<close> payload, the request has done two
  things, in this order: it has written the uploaded bytes to the upload path, and it
  has called OCR. The file holds the bytes when \<open>process\<close> returns, and the
  \<open>image_url\<close> of the payload is \<open>/static/uploads/\<close> followed by the name of that
  file.
\<close>

theorem no_text_keeps_upload:
  assumes "fst (process e file s) = Inr p" and "error p \<noteq> None"
  shows "\<exists>path img.
        events_of e file s = [FileWrite path (body file), ExtractText img (basename path)]
      \<and> fs (snd (process e file s)) path = Some (body file)
      \<and> image_url p = ''/static/uploads/'' @ basename path
      \<and> error p = Some ''No text found''"
proof -
  from process_payload_cases[OF assms(1)] obtain img t
    where r: "reaches_ocr e file s img"
      and x: "extract_text e img (upload_name e s) = Some t"
      and d: "strip t = []
         \<and> p = \<lparr>image_url = ''/static/uploads/'' @ upload_name e s,
                 text_kn = [], audio_kn = None, text_en = [], audio_en = None,
                 text_hi = [], audio_hi = None, error = Some ''No text found''\<rparr>
       \<or> strip t \<noteq> [] \<and> fst (pipeline e (upload_name e s) t (at_ocr e file img s)) = Inr p"
    by blast
  have "\<not> (strip t \<noteq> [] \<and> fst (pipeline e (upload_name e s) t (at_ocr e file img s)) = Inr p)"
  proof
    assume "strip t \<noteq> [] \<and> fst (pipeline e (upload_name e s) t (at_ocr e file img s)) = Inr p"
    then have "error p = None"
      using pipeline_payload[of e "upload_name e s" t "at_ocr e file img s" p] by auto
    with assms(2) show False by simp
  qed
  with d have b: "strip t = []"
    and p: "p = \<lparr>image_url = ''/static/uploads/'' @ upload_name e s,
                 text_kn = [], audio_kn = None, text_en = [], audio_en = None,
                 text_hi = [], audio_hi = None, error = Some ''No text found''\<rparr>"
    by blast+
  have "events_of e file s
      = [FileWrite (upload_path e s) (body file), ExtractText img (basename (upload_path e s))]"
    unfolding events_from_ocr[OF r] upload_name_basename by (simp add: x b)
  moreover have "fs (snd (process e file s)) (upload_path e s) = Some (body file)"
    unfolding process_fs_reaching[OF r] by simp
  moreover have "image_url p = ''/static/uploads/'' @ basename (upload_path e s)"
    unfolding upload_name_basename by (simp add: p)
  moreover have "error p = Some ''No text found''" by (simp add: p)
  ultimately show ?thesis by blast
qed

theorem no_text_keeps_upload_witness:
  "fst (process demo_env blank_upload (demo_state 0)) =
      Inr \<lparr>image_url = ''/static/uploads/00000000000000000000000000000000.jpg'',
           text_kn = [], audio_kn = None, text_en = [], audio_en = None,
           text_hi = [], audio_hi = None, error = Some ''No text found''\<rparr>
   \<and> events_of demo_env blank_upload (demo_state 0) =
       [FileWrite ''/app/static/uploads/00000000000000000000000000000000.jpg'' [32],
        ExtractText \<lparr>img_mode = ''RGB'', img_data = [32]\<rparr>
          ''00000000000000000000000000000000.jpg'']
   \<and> fs (snd (process demo_env blank_upload (demo_state 0)))
        ''/app/static/uploads/00000000000000000000000000000000.jpg'' = Some [32]"
proof -
  have x: "extract_text demo_env \<lparr>img_mode = ''RGB'', img_data = [32]\<rparr>
       ''00000000000000000000000000000000.jpg'' = Some [32]"
    by (simp add: demo_env_def)
  have b: "strip [32] = []" by (simp add: strip_def isspace_def)
  have r: "fst (process demo_env blank_upload (demo_state 0)) =
      Inr \<lparr>image_url = ''/static/uploads/00000000000000000000000000000000.jpg'',
           text_kn = [], audio_kn = None, text_en = [], audio_en = None,
           text_hi = [], audio_hi = None, error = Some ''No text found''\<rparr>"
    unfolding process_from_ocr[OF demo_reaches_blank] from_ocr_def demo_upload_name
    by (simp add: x b)
  have n: "error \<lparr>image_url = ''/static/uploads/00000000000000000000000000000000.jpg'',
           text_kn = [], audio_kn = None, text_en = [], audio_en = None,
           text_hi = [], audio_hi = None, error = Some ''No text found''\<rparr> \<noteq> None"
    by simp
  from no_text_keeps_upload[OF r n] obtain path img
    where ev: "events_of demo_env blank_upload (demo_state 0)
                = [FileWrite path (body blank_upload), ExtractText img (basename path)]"
      and f: "fs (snd (process demo_env blank_upload (demo_state 0))) path
                = Some (body blank_upload)"
    by blast
  from ev have "hd (events_of demo_env blank_upload (demo_state 0))
       = FileWrite path (body blank_upload)" by simp
  then have p: "path = ''/app/static/uploads/00000000000000000000000000000000.jpg''"
    unfolding demo_events_blank by simp
  have c: "body blank_upload = [32]" by (simp add: blank_upload_def)
  from r demo_events_blank f show ?thesis unfolding p c by simp
qed

section \<open>The payload on the non-blank path\<close>

lemma length_hex: "length (hex u) = 32"
  by (simp add: hex_def)

lemma take_hex: "take 32 (hex u @ suffix) = hex u"
  by (simp add: length_hex)

lemma audio_file_basename:
  assumes "CHR ''/'' \<notin> set suffix"
  shows "basename (audio_file e n suffix) = hex (uuid4 e n) @ suffix"
proof -
  have "CHR ''/'' \<notin> set (hex (uuid4 e n) @ suffix)"
    using hex_no_slash assms by simp
  then show ?thesis
    unfolding audio_file_def by (rule basename_path_join)
qed

lemma audio_file_endswith:
  assumes "length suffix = length q"
  shows "endswith (audio_file e n suffix) q \<longleftrightarrow> suffix = q"
  unfolding audio_file_def using assms by (rule endswith_path_join)

lemma pipeline_error:
  assumes "fst (pipeline e name t s) = Inl err"
  shows "err = InternalServerError"
  using assms
  by (simp add: pipeline_def uuid4_hex_def Let_def split: option.splits if_splits)

lemma strip_Nil: "strip [] = []"
  by (simp add: strip_def)

text \<open>A request whose OCR returns non-blank text goes on as \<open>pipeline\<close>.\<close>

lemma process_nonblank:
  assumes "reaches_ocr e file s img"
    and "extract_text e img (upload_name e s) = Some t"
    and "strip t \<noteq> []"
  shows "process e file s = pipeline e (upload_name e s) t (at_ocr e file img s)"
  unfolding process_from_ocr[OF assms(1)] from_ocr_def using assms(2,3) by simp

text \<open>
  C4. Let OCR have been called and have returned a text that is not blank. Then every
  payload \<open>process\<close> returns holds the image URL (\<open>/static/uploads/\<close> and the stored
  name), that text, which is not empty, as \<open>text_kn\<close>, its two translations, the three
  audio URLs (\<open>/static/audio/\<close> and the names made from the second, third and fourth
  UUID of the request) and a null error. Such a payload is returned whenever no
  translation and no synthesis fails; otherwise the request ends with status 500.
\<close>

theorem nonblank_text_payload:
  assumes "ExtractText img name \<in> set (events_of e file s)"
    and "extract_text e img name = Some t"
    and "strip t \<noteq> []"
  shows "(\<forall>p. fst (process e file s) = Inr p \<longrightarrow>
          image_url p = ''/static/uploads/'' @ name
        \<and> text_kn p = t \<and> t \<noteq> []
        \<and> google_translate e ''kn'' ''en'' t = Some (text_en p)
        \<and> google_translate e ''kn'' ''hi'' t = Some (text_hi p)
        \<and> audio_kn p = Some (''/static/audio/''
              @ hex (uuid4 e (Suc (uuid_calls s))) @ ''_kn.mp3'')
        \<and> audio_en p = Some (''/static/audio/''
              @ hex (uuid4 e (Suc (Suc (uuid_calls s)))) @ ''_en.mp3'')
        \<and> audio_hi p = Some (''/static/audio/''
              @ hex (uuid4 e (Suc (Suc (Suc (uuid_calls s))))) @ ''_hi.mp3'')
        \<and> error p = None)
    \<and> ((\<forall>tgt x. google_translate e ''kn'' tgt x \<noteq> None) \<and> (\<forall>x l f. text_to_speech e x l f)
          \<longrightarrow> (\<exists>p. fst (process e file s) = Inr p))
    \<and> (\<forall>err. fst (process e file s) = Inl err \<longrightarrow> status_code err = 500)"
proof -
  from assms(1) have r: "reaches_ocr e file s img" and n: "name = upload_name e s"
    using ocr_event_reaches by blast+
  from assms(2) n have x: "extract_text e img (upload_name e s) = Some t" by simp
  note pr = process_nonblank[OF r x assms(3)]
  have ne: "t \<noteq> []" using assms(3) strip_Nil by auto
  have b: "basename (audio_file e k ''_kn.mp3'') = hex (uuid4 e k) @ ''_kn.mp3''"
    "basename (audio_file e k ''_en.mp3'') = hex (uuid4 e k) @ ''_en.mp3''"
    "basename (audio_file e k ''_hi.mp3'') = hex (uuid4 e k) @ ''_hi.mp3''" for k
    by (simp_all add: audio_file_basename)
  have 1: "image_url p = ''/static/uploads/'' @ name
        \<and> text_kn p = t \<and> t \<noteq> []
        \<and> google_translate e ''kn'' ''en'' t = Some (text_en p)
        \<and> google_translate e ''kn'' ''hi'' t = Some (text_hi p)
        \<and> audio_kn p = Some (''/static/audio/''
              @ hex (uuid4 e (Suc (uuid_calls s))) @ ''_kn.mp3'')
        \<and> audio_en p = Some (''/static/audio/''
              @ hex (uuid4 e (Suc (Suc (uuid_calls s)))) @ ''_en.mp3'')
        \<and> audio_hi p = Some (''/static/audio/''
              @ hex (uuid4 e (Suc (Suc (Suc (uuid_calls s))))) @ ''_hi.mp3'')
        \<and> error p = None"
    if "fst (process e file s) = Inr p" for p
  proof -
    from that have "fst (pipeline e (upload_name e s) t (at_ocr e file img s)) = Inr p"
      unfolding pr .
    from pipeline_payload[OF this] show ?thesis
      unfolding uuid_calls_at_ocr b using ne n by auto
  qed
  have 2: "\<exists>p. fst (process e file s) = Inr p"
    if a: "(\<forall>tgt x. google_translate e ''kn'' tgt x \<noteq> None) \<and> (\<forall>x l f. text_to_speech e x l f)"
  proof -
    from a obtain t_en t_hi where "google_translate e ''kn'' ''en'' t = Some t_en"
      and "google_translate e ''kn'' ''hi'' t = Some t_hi"
      by (meson option.exhaust)
    then show ?thesis
      unfolding pr using a by (intro pipeline_returns) auto
  qed
  have 3: "status_code err = 500" if "fst (process e file s) = Inl err" for err
  proof -
    from that have "fst (pipeline e (upload_name e s) t (at_ocr e file img s)) = Inl err"
      unfolding pr .
    from pipeline_error[OF this] show ?thesis by simp
  qed
  from 1 2 3 show ?thesis by blast
qed

lemma demo_extract_png:
  "extract_text demo_env \<lparr>img_mode = ''RGB'', img_data = [65]\<rparr>
       ''00000000000000000000000000000000.jpg'' = Some [65]"
  by (simp add: demo_env_def)

lemma strip_A: "strip [65] = [65]"
  by (simp add: strip_def isspace_def)

lemma demo_ocr_event_png:
  "ExtractText \<lparr>img_mode = ''RGB'', img_data = [65]\<rparr> ''00000000000000000000000000000000.jpg''
     \<in> set (events_of demo_env png_upload (demo_state 0))"
  unfolding demo_events_png by simp

lemma demo_hex:
  "hex (uuid4 demo_env (Suc (uuid_calls (demo_state 0))))
     = ''00000000000000000000000000000001''"
  "hex (uuid4 demo_env (Suc (Suc (uuid_calls (demo_state 0)))))
     = ''00000000000000000000000000000002''"
  "hex (uuid4 demo_env (Suc (Suc (Suc (uuid_calls (demo_state 0))))))
     = ''00000000000000000000000000000003''"
  by code_simp+

lemma demo_adapters:
  "(\<forall>tgt x. google_translate demo_env ''kn'' tgt x \<noteq> None)
   \<and> (\<forall>x l f. text_to_speech demo_env x l f)"
  by (simp add: demo_env_def)

lemma demo_translations:
  "google_translate demo_env ''kn'' ''en'' [65] = Some [65, 101]"
  "google_translate demo_env ''kn'' ''hi'' [65] = Some [65, 104]"
  by (simp_all add: demo_env_def)

theorem nonblank_text_payload_witness:
  "extract_text demo_env \<lparr>img_mode = ''RGB'', img_data = [65]\<rparr>
       ''00000000000000000000000000000000.jpg'' = Some [65]
   \<and> strip [65] = [65]
   \<and> fst (process demo_env png_upload (demo_state 0)) =
       Inr \<lparr>image_url = ''/static/uploads/00000000000000000000000000000000.jpg'',
            text_kn = [65],
            audio_kn = Some ''/static/audio/00000000000000000000000000000001_kn.mp3'',
            text_en = [65, 101],
            audio_en = Some ''/static/audio/00000000000000000000000000000002_en.mp3'',
            text_hi = [65, 104],
            audio_hi = Some ''/static/audio/00000000000000000000000000000003_hi.mp3'',
            error = None\<rparr>"
proof -
  have nb: "strip [65] \<noteq> []" by (simp add: strip_A)
  note T = nonblank_text_payload[OF demo_ocr_event_png demo_extract_png nb]
  from T demo_adapters obtain p
    where P: "fst (process demo_env png_upload (demo_state 0)) = Inr p" by blast
  with T have "image_url p = ''/static/uploads/'' @ ''00000000000000000000000000000000.jpg''
        \<and> text_kn p = [65]
        \<and> google_translate demo_env ''kn'' ''en'' [65] = Some (text_en p)
        \<and> google_translate demo_env ''kn'' ''hi'' [65] = Some (text_hi p)
        \<and> audio_kn p = Some (''/static/audio/''
              @ hex (uuid4 demo_env (Suc (uuid_calls (demo_state 0)))) @ ''_kn.mp3'')
        \<and> audio_en p = Some (''/static/audio/''
              @ hex (uuid4 demo_env (Suc (Suc (uuid_calls (demo_state 0))))) @ ''_en.mp3'')
        \<and> audio_hi p = Some (''/static/audio/''
              @ hex (uuid4 demo_env (Suc (Suc (Suc (uuid_calls (demo_state 0)))))) @ ''_hi.mp3'')
        \<and> error p = None"
    by blast
  then have "p = \<lparr>image_url = ''/static/uploads/00000000000000000000000000000000.jpg'',
            text_kn = [65],
            audio_kn = Some ''/static/audio/00000000000000000000000000000001_kn.mp3'',
            text_en = [65, 101],
            audio_en = Some ''/static/audio/00000000000000000000000000000002_en.mp3'',
            text_hi = [65, 104],
            audio_hi = Some ''/static/audio/00000000000000000000000000000003_hi.mp3'',
            error = None\<rparr>"
    unfolding demo_hex demo_translations by (cases p) simp
  with P demo_extract_png strip_A show ?thesis by simp
qed

section \<open>Speech synthesis: text, language and file\<close>

text \<open>The actions of a request that returns a payload without error message, and the
  adapter results the payload rests on.\<close>

lemma success_events:
  assumes "fst (process e file s) = Inr p" and "error p = None"
  shows "\<exists>img. events_of e file s =
      [FileWrite (upload_path e s) (body file), ExtractText img (upload_name e s),
       Translate ''kn'' ''en'' (text_kn p), Translate ''kn'' ''hi'' (text_kn p),
       TextToSpeech (text_kn p) ''kn'' (audio_file e (Suc (uuid_calls s)) ''_kn.mp3''),
       TextToSpeech (text_en p) ''en'' (audio_file e (Suc (Suc (uuid_calls s))) ''_en.mp3''),
       TextToSpeech (text_hi p) ''hi''
         (audio_file e (Suc (Suc (Suc (uuid_calls s)))) ''_hi.mp3'')]
    \<and> extract_text e img (upload_name e s) = Some (text_kn p)
    \<and> google_translate e ''kn'' ''en'' (text_kn p) = Some (text_en p)
    \<and> google_translate e ''kn'' ''hi'' (text_kn p) = Some (text_hi p)
    \<and> text_to_speech e (text_kn p) ''kn'' (audio_file e (Suc (uuid_calls s)) ''_kn.mp3'')
    \<and> text_to_speech e (text_en p) ''en'' (audio_file e (Suc (Suc (uuid_calls s))) ''_en.mp3'')
    \<and> text_to_speech e (text_hi p) ''hi''
         (audio_file e (Suc (Suc (Suc (uuid_calls s)))) ''_hi.mp3'')
    \<and> audio_kn p = Some (''/static/audio/''
         @ basename (audio_file e (Suc (uuid_calls s)) ''_kn.mp3''))
    \<and> audio_en p = Some (''/static/audio/''
         @ basename (audio_file e (Suc (Suc (uuid_calls s))) ''_en.mp3''))
    \<and> audio_hi p = Some (''/static/audio/''
         @ basename (audio_file e (Suc (Suc (Suc (uuid_calls s)))) ''_hi.mp3''))
    \<and> image_url p = ''/static/uploads/'' @ upload_name e s"
proof -
  from process_payload_cases[OF assms(1)] assms(2) obtain img t
    where r: "reaches_ocr e file s img"
      and x: "extract_text e img (upload_name e s) = Some t"
      and nb: "strip t \<noteq> []"
      and pl: "fst (pipeline e (upload_name e s) t (at_ocr e file img s)) = Inr p"
    by auto
  from pipeline_payload[OF pl] obtain t_en t_hi
    where en: "google_translate e ''kn'' ''en'' t = Some t_en"
      and hi: "google_translate e ''kn'' ''hi'' t = Some t_hi"
      and p: "p = \<lparr>image_url = ''/static/uploads/'' @ upload_name e s,
           text_kn = t,
           audio_kn = Some (''/static/audio/''
              @ basename (audio_file e (Suc (uuid_calls s)) ''_kn.mp3'')),
           text_en = t_en,
           audio_en = Some (''/static/audio/''
              @ basename (audio_file e (Suc (Suc (uuid_calls s))) ''_en.mp3'')),
           text_hi = t_hi,
           audio_hi = Some (''/static/audio/''
              @ basename (audio_file e (Suc (Suc (Suc (uuid_calls s)))) ''_hi.mp3'')),
           error = None\<rparr>"
    unfolding uuid_calls_at_ocr by blast
  have tk: "text_kn p = t" and te: "text_en p = t_en" and th: "text_hi p = t_hi"
    by (simp_all add: p)
  have ev: "events_of e file s =
      [FileWrite (upload_path e s) (body file), ExtractText img (upload_name e s),
       Translate ''kn'' ''en'' (text_kn p), Translate ''kn'' ''hi'' (text_kn p),
       TextToSpeech (text_kn p) ''kn'' (audio_file e (Suc (uuid_calls s)) ''_kn.mp3''),
       TextToSpeech (text_en p) ''en'' (audio_file e (Suc (Suc (uuid_calls s))) ''_en.mp3''),
       TextToSpeech (text_hi p) ''hi''
         (audio_file e (Suc (Suc (Suc (uuid_calls s)))) ''_hi.mp3'')]"
    unfolding events_from_ocr[OF r] tk te th by (simp add: x nb en hi)
  from pipeline_tts[OF pl]
  have tts: "text_to_speech e (text_kn p) ''kn'' (audio_file e (Suc (uuid_calls s)) ''_kn.mp3'')"
    "text_to_speech e (text_en p) ''en'' (audio_file e (Suc (Suc (uuid_calls s))) ''_en.mp3'')"
    "text_to_speech e (text_hi p) ''hi''
         (audio_file e (Suc (Suc (Suc (uuid_calls s)))) ''_hi.mp3'')"
    unfolding uuid_calls_at_ocr by simp_all
  have au: "audio_kn p = Some (''/static/audio/''
         @ basename (audio_file e (Suc (uuid_calls s)) ''_kn.mp3''))"
    "audio_en p = Some (''/static/audio/''
         @ basename (audio_file e (Suc (Suc (uuid_calls s))) ''_en.mp3''))"
    "audio_hi p = Some (''/static/audio/''
         @ basename (audio_file e (Suc (Suc (Suc (uuid_calls s)))) ''_hi.mp3''))"
    "image_url p = ''/static/uploads/'' @ upload_name e s"
    by (simp_all add: p)
  from x en hi have res: "extract_text e img (upload_name e s) = Some (text_kn p)"
    "google_translate e ''kn'' ''en'' (text_kn p) = Some (text_en p)"
    "google_translate e ''kn'' ''hi'' (text_kn p) = Some (text_hi p)"
    unfolding tk te th by simp_all
  from ev res tts au show ?thesis by blast
qed

text \<open>
  C6. When \<open>process\<close> returns a payload with a null error, it has made exactly three
  speech-synthesis calls: one on the Kannada text of the payload with language \<open>kn\<close>
  and a file ending in \<open>_kn.mp3\<close>, one on the English text (the translation of the
  Kannada text into \<open>en\<close>) with language \<open>en\<close> and a file ending in \<open>_en.mp3\<close>, and
  one on the Hindi text with language \<open>hi\<close> and a file ending in \<open>_hi.mp3\<close>. These
  are the arguments the adapter \<open>text_to_speech\<close> has received: it has returned on
  each of the three. So a call whose file ends in one of the three suffixes has the
  text and the language of that suffix, and the audio URLs of the payload name these
  three files.
\<close>

theorem speech_matches_language:
  assumes "fst (process e file s) = Inr p" and "error p = None"
  shows "(\<exists>fk fe fh.
        tts_calls (events_of e file s)
          = [(text_kn p, ''kn'', fk), (text_en p, ''en'', fe), (text_hi p, ''hi'', fh)]
      \<and> text_to_speech e (text_kn p) ''kn'' fk
      \<and> text_to_speech e (text_en p) ''en'' fe
      \<and> text_to_speech e (text_hi p) ''hi'' fh
      \<and> endswith fk ''_kn.mp3'' \<and> endswith fe ''_en.mp3'' \<and> endswith fh ''_hi.mp3''
      \<and> audio_kn p = Some (''/static/audio/'' @ basename fk)
      \<and> audio_en p = Some (''/static/audio/'' @ basename fe)
      \<and> audio_hi p = Some (''/static/audio/'' @ basename fh))
    \<and> google_translate e ''kn'' ''en'' (text_kn p) = Some (text_en p)
    \<and> google_translate e ''kn'' ''hi'' (text_kn p) = Some (text_hi p)
    \<and> (\<forall>x lang f. (x, lang, f) \<in> set (tts_calls (events_of e file s)) \<longrightarrow>
           text_to_speech e x lang f
         \<and> (endswith f ''_kn.mp3'' \<longrightarrow> x = text_kn p \<and> lang = ''kn'')
         \<and> (endswith f ''_en.mp3'' \<longrightarrow> x = text_en p \<and> lang = ''en'')
         \<and> (endswith f ''_hi.mp3'' \<longrightarrow> x = text_hi p \<and> lang = ''hi''))"
proof -
  from success_events[OF assms] obtain img where
    ev: "events_of e file s =
      [FileWrite (upload_path e s) (body file), ExtractText img (upload_name e s),
       Translate ''kn'' ''en'' (text_kn p), Translate ''kn'' ''hi'' (text_kn p),
       TextToSpeech (text_kn p) ''kn'' (audio_file e (Suc (uuid_calls s)) ''_kn.mp3''),
       TextToSpeech (text_en p) ''en'' (audio_file e (Suc (Suc (uuid_calls s))) ''_en.mp3''),
       TextToSpeech (text_hi p) ''hi''
         (audio_file e (Suc (Suc (Suc (uuid_calls s)))) ''_hi.mp3'')]"
    and tr: "google_translate e ''kn'' ''en'' (text_kn p) = Some (text_en p)"
      "google_translate e ''kn'' ''hi'' (text_kn p) = Some (text_hi p)"
    and tts: "text_to_speech e (text_kn p) ''kn'' (audio_file e (Suc (uuid_calls s)) ''_kn.mp3'')"
      "text_to_speech e (text_en p) ''en'' (audio_file e (Suc (Suc (uuid_calls s))) ''_en.mp3'')"
      "text_to_speech e (text_hi p) ''hi''
         (audio_file e (Suc (Suc (Suc (uuid_calls s)))) ''_hi.mp3'')"
    and au: "audio_kn p = Some (''/static/audio/''
         @ basename (audio_file e (Suc (uuid_calls s)) ''_kn.mp3''))"
      "audio_en p = Some (''/static/audio/''
         @ basename (audio_file e (Suc (Suc (uuid_calls s))) ''_en.mp3''))"
      "audio_hi p = Some (''/static/audio/''
         @ basename (audio_file e (Suc (Suc (Suc (uuid_calls s)))) ''_hi.mp3''))"
    by blast
  have calls: "tts_calls (events_of e file s) =
     [(text_kn p, ''kn'', audio_file e (Suc (uuid_calls s)) ''_kn.mp3''),
      (text_en p, ''en'', audio_file e (Suc (Suc (uuid_calls s))) ''_en.mp3''),
      (text_hi p, ''hi'', audio_file e (Suc (Suc (Suc (uuid_calls s)))) ''_hi.mp3'')]"
    unfolding ev by simp
  have sfx: "endswith (audio_file e k ''_kn.mp3'') q \<longleftrightarrow> ''_kn.mp3'' = q"
    "endswith (audio_file e k ''_en.mp3'') q \<longleftrightarrow> ''_en.mp3'' = q"
    "endswith (audio_file e k ''_hi.mp3'') q \<longleftrightarrow> ''_hi.mp3'' = q"
    if "length q = 7" for k q
    using that by (simp_all add: audio_file_endswith)
  have 1: "\<exists>fk fe fh.
        tts_calls (events_of e file s)
          = [(text_kn p, ''kn'', fk), (text_en p, ''en'', fe), (text_hi p, ''hi'', fh)]
      \<and> text_to_speech e (text_kn p) ''kn'' fk
      \<and> text_to_speech e (text_en p) ''en'' fe
      \<and> text_to_speech e (text_hi p) ''hi'' fh
      \<and> endswith fk ''_kn.mp3'' \<and> endswith fe ''_en.mp3'' \<and> endswith fh ''_hi.mp3''
      \<and> audio_kn p = Some (''/static/audio/'' @ basename fk)
      \<and> audio_en p = Some (''/static/audio/'' @ basename fe)
      \<and> audio_hi p = Some (''/static/audio/'' @ basename fh)"
    unfolding calls using au tts by (simp add: sfx)
  have 2: "text_to_speech e x lang f
         \<and> (endswith f ''_kn.mp3'' \<longrightarrow> x = text_kn p \<and> lang = ''kn'')
         \<and> (endswith f ''_en.mp3'' \<longrightarrow> x = text_en p \<and> lang = ''en'')
         \<and> (endswith f ''_hi.mp3'' \<longrightarrow> x = text_hi p \<and> lang = ''hi'')"
    if "(x, lang, f) \<in> set (tts_calls (events_of e file s))" for x lang f
    using that tts unfolding calls by (auto simp: sfx)
  from 1 2 tr show ?thesis by blast
qed

theorem speech_matches_language_witness:
  "fst (process demo_env png_upload (demo_state 0)) =
       Inr \<lparr>image_url = ''/static/uploads/00000000000000000000000000000000.jpg'',
            text_kn = [65],
            audio_kn = Some ''/static/audio/00000000000000000000000000000001_kn.mp3'',
            text_en = [65, 101],
            audio_en = Some ''/static/audio/00000000000000000000000000000002_en.mp3'',
            text_hi = [65, 104],
            audio_hi = Some ''/static/audio/00000000000000000000000000000003_hi.mp3'',
            error = None\<rparr>
   \<and> tts_calls (events_of demo_env png_upload (demo_state 0)) =
       [([65], ''kn'', ''/app/static/audio/00000000000000000000000000000001_kn.mp3''),
        ([65, 101], ''en'', ''/app/static/audio/00000000000000000000000000000002_en.mp3''),
        ([65, 104], ''hi'', ''/app/static/audio/00000000000000000000000000000003_hi.mp3'')]
   \<and> text_to_speech demo_env [65] ''kn''
        ''/app/static/audio/00000000000000000000000000000001_kn.mp3''
   \<and> text_to_speech demo_env [65, 101] ''en''
        ''/app/static/audio/00000000000000000000000000000002_en.mp3''
   \<and> text_to_speech demo_env [65, 104] ''hi''
        ''/app/static/audio/00000000000000000000000000000003_hi.mp3''
   \<and> google_translate demo_env ''kn'' ''en'' [65] = Some [65, 101]
   \<and> google_translate demo_env ''kn'' ''hi'' [65] = Some [65, 104]"
proof -
  have P: "fst (process demo_env png_upload (demo_state 0)) =
       Inr \<lparr>image_url = ''/static/uploads/00000000000000000000000000000000.jpg'',
            text_kn = [65],
            audio_kn = Some ''/static/audio/00000000000000000000000000000001_kn.mp3'',
            text_en = [65, 101],
            audio_en = Some ''/static/audio/00000000000000000000000000000002_en.mp3'',
            text_hi = [65, 104],
            audio_hi = Some ''/static/audio/00000000000000000000000000000003_hi.mp3'',
            error = None\<rparr>"
    by code_simp
  have c: "tts_calls (events_of demo_env png_upload (demo_state 0)) =
       [([65], ''kn'', ''/app/static/audio/00000000000000000000000000000001_kn.mp3''),
        ([65, 101], ''en'', ''/app/static/audio/00000000000000000000000000000002_en.mp3''),
        ([65, 104], ''hi'', ''/app/static/audio/00000000000000000000000000000003_hi.mp3'')]"
    unfolding demo_events_png by simp
  from speech_matches_language[OF P]
  have "google_translate demo_env ''kn'' ''en'' [65] = Some [65, 101]
    \<and> google_translate demo_env ''kn'' ''hi'' [65] = Some [65, 104]
    \<and> (\<forall>x lang f. (x, lang, f) \<in> set (tts_calls (events_of demo_env png_upload (demo_state 0)))
          \<longrightarrow> text_to_speech demo_env x lang f)"
    by simp
  then have "google_translate demo_env ''kn'' ''en'' [65] = Some [65, 101]
    \<and> google_translate demo_env ''kn'' ''hi'' [65] = Some [65, 104]
    \<and> text_to_speech demo_env [65] ''kn''
        ''/app/static/audio/00000000000000000000000000000001_kn.mp3''
    \<and> text_to_speech demo_env [65, 101] ''en''
        ''/app/static/audio/00000000000000000000000000000002_en.mp3''
    \<and> text_to_speech demo_env [65, 104] ''hi''
        ''/app/static/audio/00000000000000000000000000000003_hi.mp3''"
    unfolding c by simp
  with P c show ?thesis by simp
qed

section \<open>How often the collaborators are called\<close>










section \<open>File names\<close>

lemma uuid_calls_reaching:
  assumes "reaches_ocr e file s img"
  shows "uuid_calls (snd (process e file s)) =
     (case extract_text e img (upload_name e s) of
        None \<Rightarrow> Suc (uuid_calls s)
      | Some t \<Rightarrow> if strip t = [] then Suc (uuid_calls s)
                  else Suc (Suc (Suc (Suc (uuid_calls s)))))"
  unfolding process_from_ocr[OF assms] from_ocr_def
  by (simp add: uuid_calls_at_ocr pipeline_uuid_calls split: option.splits)

lemma audio_name_key:
  "take 32 (basename (audio_file e k ''_kn.mp3'')) = hex (uuid4 e k)"
  "take 32 (basename (audio_file e k ''_en.mp3'')) = hex (uuid4 e k)"
  "take 32 (basename (audio_file e k ''_hi.mp3'')) = hex (uuid4 e k)"
proof -
  have b: "basename (audio_file e k ''_kn.mp3'') = hex (uuid4 e k) @ ''_kn.mp3''"
    "basename (audio_file e k ''_en.mp3'') = hex (uuid4 e k) @ ''_en.mp3''"
    "basename (audio_file e k ''_hi.mp3'') = hex (uuid4 e k) @ ''_hi.mp3''"
    by (simp_all add: audio_file_basename)
  show "take 32 (basename (audio_file e k ''_kn.mp3'')) = hex (uuid4 e k)"
    unfolding b by (rule take_hex)
  show "take 32 (basename (audio_file e k ''_en.mp3'')) = hex (uuid4 e k)"
    unfolding b by (rule take_hex)
  show "take 32 (basename (audio_file e k ''_hi.mp3'')) = hex (uuid4 e k)"
    unfolding b by (rule take_hex)
qed

lemma upload_name_key: "take 32 (basename (upload_path e s)) = hex (uuid4 e (uuid_calls s))"
  unfolding upload_name_basename upload_name_def by (rule take_hex)

text \<open>
  The first 32 characters of the names of a request are the hexadecimal forms of the
  first UUIDs it draws, in the order of drawing.
\<close>

lemma file_names_keys:
  "\<exists>k. map (take 32) (file_names (events_of e file s)) = map hex (take k (drawn e file s))"
proof (cases "\<exists>img. reaches_ocr e file s img")
  case False
  then have nr: "\<forall>img. \<not> reaches_ocr e file s img" by simp
  from process_not_reaching[OF nr]
  have ev: "events_of e file s = []
      \<or> events_of e file s = [FileWrite (upload_path e s) (body file)]"
    and uc: "uuid_calls (snd (process e file s)) = uuid_calls s \<and> events_of e file s = []
       \<or> uuid_calls (snd (process e file s)) = Suc (uuid_calls s)"
    by simp_all
  show ?thesis
  proof (cases "events_of e file s = []")
    case True
    then have "map (take 32) (file_names (events_of e file s))
        = map hex (take 0 (drawn e file s))" by simp
    then show ?thesis by (rule exI)
  next
    case False
    with ev uc have e1: "events_of e file s = [FileWrite (upload_path e s) (body file)]"
      and u1: "uuid_calls (snd (process e file s)) = Suc (uuid_calls s)" by auto
    have d: "drawn e file s = [uuid4 e (uuid_calls s)]" by (simp add: drawn_def u1)
    have "map (take 32) (file_names (events_of e file s))
        = map hex (take (Suc 0) (drawn e file s))"
      unfolding e1 d by (simp add: upload_name_key)
    then show ?thesis by (rule exI)
  qed
next
  case True
  then obtain img where r: "reaches_ocr e file s img" ..
  note ev = events_from_ocr[OF r]
  note uc = uuid_calls_reaching[OF r]
  show ?thesis
  proof (cases "\<exists>t. extract_text e img (upload_name e s) = Some t \<and> strip t \<noteq> []")
    case False
    then have e1: "events_of e file s
        = [FileWrite (upload_path e s) (body file), ExtractText img (upload_name e s)]"
      and u1: "uuid_calls (snd (process e file s)) = Suc (uuid_calls s)"
      unfolding ev uc by (auto split: option.splits)
    have d: "drawn e file s = [uuid4 e (uuid_calls s)]" by (simp add: drawn_def u1)
    have "map (take 32) (file_names (events_of e file s))
        = map hex (take (Suc 0) (drawn e file s))"
      unfolding e1 d by (simp add: upload_name_key)
    then show ?thesis by (rule exI)
  next
    case True
    then obtain t where x: "extract_text e img (upload_name e s) = Some t"
      and nb: "strip t \<noteq> []" by blast
    have u4: "uuid_calls (snd (process e file s)) = Suc (Suc (Suc (Suc (uuid_calls s))))"
      unfolding uc using x nb by simp
    have d: "drawn e file s = [uuid4 e (uuid_calls s), uuid4 e (Suc (uuid_calls s)),
        uuid4 e (Suc (Suc (uuid_calls s))), uuid4 e (Suc (Suc (Suc (uuid_calls s))))]"
      by (simp add: drawn_def u4 upt_rec)
    show ?thesis
    proof (cases "\<exists>t_en t_hi. google_translate e ''kn'' ''en'' t = Some t_en
        \<and> google_translate e ''kn'' ''hi'' t = Some t_hi")
      case True
      then obtain t_en t_hi where tr: "google_translate e ''kn'' ''en'' t = Some t_en"
        "google_translate e ''kn'' ''hi'' t = Some t_hi" by blast
      have "map (take 32) (file_names (events_of e file s))
          = map hex (take (Suc (Suc (Suc (Suc 0)))) (drawn e file s))"
        unfolding ev d using x nb tr by (simp add: upload_name_key audio_name_key)
      then show ?thesis by (rule exI)
    next
      case False
      then have "map (take 32) (file_names (events_of e file s))
          = map hex (take (Suc (Suc 0)) (drawn e file s))"
        unfolding ev d using x nb
        by (auto simp: upload_name_key audio_name_key split: option.splits)
      then show ?thesis by (rule exI)
    qed
  qed
qed

text \<open>The names of a request that returns a payload are the names the payload gives
  out, and the first of them is the name of the file the request has stored.\<close>

lemma payload_names:
  assumes "fst (process e file s) = Inr p"
  shows "\<exists>n0 rest. file_names (events_of e file s) = n0 # rest
      \<and> image_url p = ''/static/uploads/'' @ n0
      \<and> (\<exists>path. basename path = n0 \<and> fs (snd (process e file s)) path = Some (body file))
      \<and> (error p = None \<longrightarrow>
           (\<exists>nk ne nh. rest = [nk, ne, nh]
              \<and> audio_kn p = Some (''/static/audio/'' @ nk)
              \<and> audio_en p = Some (''/static/audio/'' @ ne)
              \<and> audio_hi p = Some (''/static/audio/'' @ nh)))"
proof (cases "error p = None")
  case True
  from success_events[OF assms True] obtain img where
    ev: "events_of e file s =
      [FileWrite (upload_path e s) (body file), ExtractText img (upload_name e s),
       Translate ''kn'' ''en'' (text_kn p), Translate ''kn'' ''hi'' (text_kn p),
       TextToSpeech (text_kn p) ''kn'' (audio_file e (Suc (uuid_calls s)) ''_kn.mp3''),
       TextToSpeech (text_en p) ''en'' (audio_file e (Suc (Suc (uuid_calls s))) ''_en.mp3''),
       TextToSpeech (text_hi p) ''hi''
         (audio_file e (Suc (Suc (Suc (uuid_calls s)))) ''_hi.mp3'')]"
    and au: "audio_kn p = Some (''/static/audio/''
         @ basename (audio_file e (Suc (uuid_calls s)) ''_kn.mp3''))"
      "audio_en p = Some (''/static/audio/''
         @ basename (audio_file e (Suc (Suc (uuid_calls s))) ''_en.mp3''))"
      "audio_hi p = Some (''/static/audio/''
         @ basename (audio_file e (Suc (Suc (Suc (uuid_calls s)))) ''_hi.mp3''))"
      "image_url p = ''/static/uploads/'' @ upload_name e s"
    by blast
  from process_payload_cases[OF assms] obtain img' where r: "reaches_ocr e file s img'"
    by blast
  have f: "fs (snd (process e file s)) (upload_path e s) = Some (body file)"
    unfolding process_fs_reaching[OF r] by simp
  have n: "file_names (events_of e file s) =
      basename (upload_path e s) #
      [basename (audio_file e (Suc (uuid_calls s)) ''_kn.mp3''),
       basename (audio_file e (Suc (Suc (uuid_calls s))) ''_en.mp3''),
       basename (audio_file e (Suc (Suc (Suc (uuid_calls s)))) ''_hi.mp3'')]"
    unfolding ev by simp
  from au(4) have u: "image_url p = ''/static/uploads/'' @ basename (upload_path e s)"
    unfolding upload_name_basename .
  from n u f au(1,2,3) show ?thesis by blast
next
  case False
  from process_payload_cases[OF assms] obtain img t
    where r: "reaches_ocr e file s img"
      and x: "extract_text e img (upload_name e s) = Some t"
      and d: "strip t = []
         \<and> p = \<lparr>image_url = ''/static/uploads/'' @ upload_name e s,
                 text_kn = [], audio_kn = None, text_en = [], audio_en = None,
                 text_hi = [], audio_hi = None, error = Some ''No text found''\<rparr>
       \<or> strip t \<noteq> [] \<and> fst (pipeline e (upload_name e s) t (at_ocr e file img s)) = Inr p"
    by blast
  have "\<not> (strip t \<noteq> [] \<and> fst (pipeline e (upload_name e s) t (at_ocr e file img s)) = Inr p)"
  proof
    assume "strip t \<noteq> [] \<and> fst (pipeline e (upload_name e s) t (at_ocr e file img s)) = Inr p"
    then have "error p = None"
      using pipeline_payload[of e "upload_name e s" t "at_ocr e file img s" p] by auto
    with False show False by simp
  qed
  with d have b: "strip t = []"
    and u: "image_url p = ''/static/uploads/'' @ upload_name e s"
    by auto
  have n: "file_names (events_of e file s) = basename (upload_path e s) # []"
    unfolding events_from_ocr[OF r] by (simp add: x b)
  have f: "fs (snd (process e file s)) (upload_path e s) = Some (body file)"
    unfolding process_fs_reaching[OF r] by simp
  from u have u': "image_url p = ''/static/uploads/'' @ basename (upload_path e s)"
    unfolding upload_name_basename .
  from n u' f False show ?thesis by (auto intro!: exI[of _ "upload_path e s"])
qed

lemma hex_inj_on: "inj_on hex A"
  by (rule inj_onI) (rule hex_inj)

lemma distinct_names:
  assumes "distinct (drawn e1 file1 s1 @ drawn e2 file2 s2)"
  shows "distinct (file_names (events_of e1 file1 s1) @ file_names (events_of e2 file2 s2))"
proof -
  obtain k1 where k1: "map (take 32) (file_names (events_of e1 file1 s1))
      = map hex (take k1 (drawn e1 file1 s1))"
    using file_names_keys by blast
  obtain k2 where k2: "map (take 32) (file_names (events_of e2 file2 s2))
      = map hex (take k2 (drawn e2 file2 s2))"
    using file_names_keys by blast
  from assms have "distinct (take k1 (drawn e1 file1 s1) @ take k2 (drawn e2 file2 s2))"
    by (auto dest: in_set_takeD)
  then have "distinct (map hex (take k1 (drawn e1 file1 s1) @ take k2 (drawn e2 file2 s2)))"
    by (simp only: distinct_map hex_inj_on simp_thms)
  then have "distinct (map (take 32)
      (file_names (events_of e1 file1 s1) @ file_names (events_of e2 file2 s2)))"
    unfolding map_append k1 k2 .
  then show ?thesis unfolding distinct_map by (rule conjunct1)
qed

text \<open>
  C7. Let the UUIDs that two executions of \<open>process\<close> draw be pairwise distinct. Then
  the names of the files the two executions store and have synthesised (the last path
  components of the upload written and of the audio files handed to
  \<open>text_to_speech\<close>) are pairwise distinct too, within each execution and across the
  two. These are the names a returned payload gives out: its \<open>image_url\<close> ends in
  the first of them, which is the name of the file stored, and on success its three
  audio URLs end in the other three.
\<close>

theorem distinct_uuids_give_distinct_names:
  assumes "distinct (drawn e1 file1 s1 @ drawn e2 file2 s2)"
  shows "distinct (file_names (events_of e1 file1 s1) @ file_names (events_of e2 file2 s2))
    \<and> (\<forall>p. fst (process e1 file1 s1) = Inr p \<longrightarrow>
         (\<exists>n0 rest. file_names (events_of e1 file1 s1) = n0 # rest
            \<and> image_url p = ''/static/uploads/'' @ n0
            \<and> (\<exists>path. basename path = n0
                  \<and> fs (snd (process e1 file1 s1)) path = Some (body file1))
            \<and> (error p = None \<longrightarrow>
                 (\<exists>nk ne nh. rest = [nk, ne, nh]
                    \<and> audio_kn p = Some (''/static/audio/'' @ nk)
                    \<and> audio_en p = Some (''/static/audio/'' @ ne)
                    \<and> audio_hi p = Some (''/static/audio/'' @ nh)))))
    \<and> (\<forall>p. fst (process e2 file2 s2) = Inr p \<longrightarrow>
         (\<exists>n0 rest. file_names (events_of e2 file2 s2) = n0 # rest
            \<and> image_url p = ''/static/uploads/'' @ n0
            \<and> (\<exists>path. basename path = n0
                  \<and> fs (snd (process e2 file2 s2)) path = Some (body file2))
            \<and> (error p = None \<longrightarrow>
                 (\<exists>nk ne nh. rest = [nk, ne, nh]
                    \<and> audio_kn p = Some (''/static/audio/'' @ nk)
                    \<and> audio_en p = Some (''/static/audio/'' @ ne)
                    \<and> audio_hi p = Some (''/static/audio/'' @ nh)))))"
  using distinct_names[OF assms] payload_names[of e1 file1 s1] payload_names[of e2 file2 s2]
  by (intro conjI allI impI)

lemma demo_drawn:
  "drawn demo_env png_upload (demo_state 0) = [0, 1, 2, 3]"
  "drawn demo_env png_upload (demo_state 4) = [4, 5, 6, 7]"
  by code_simp+

lemma demo_file_names:
  "file_names (events_of demo_env png_upload (demo_state 0)) =
     [''00000000000000000000000000000000.jpg'',
      ''00000000000000000000000000000001_kn.mp3'',
      ''00000000000000000000000000000002_en.mp3'',
      ''00000000000000000000000000000003_hi.mp3'']"
  "file_names (events_of demo_env png_upload (demo_state 4)) =
     [''00000000000000000000000000000004.jpg'',
      ''00000000000000000000000000000005_kn.mp3'',
      ''00000000000000000000000000000006_en.mp3'',
      ''00000000000000000000000000000007_hi.mp3'']"
  by code_simp+

theorem distinct_uuids_give_distinct_names_witness:
  "drawn demo_env png_upload (demo_state 0) = [0, 1, 2, 3]
   \<and> drawn demo_env png_upload (demo_state 4) = [4, 5, 6, 7]
   \<and> file_names (events_of demo_env png_upload (demo_state 0)) =
       [''00000000000000000000000000000000.jpg'',
        ''00000000000000000000000000000001_kn.mp3'',
        ''00000000000000000000000000000002_en.mp3'',
        ''00000000000000000000000000000003_hi.mp3'']
   \<and> file_names (events_of demo_env png_upload (demo_state 4)) =
       [''00000000000000000000000000000004.jpg'',
        ''00000000000000000000000000000005_kn.mp3'',
        ''00000000000000000000000000000006_en.mp3'',
        ''00000000000000000000000000000007_hi.mp3'']
   \<and> distinct (file_names (events_of demo_env png_upload (demo_state 0))
        @ file_names (events_of demo_env png_upload (demo_state 4)))"
proof -
  have d: "distinct (drawn demo_env png_upload (demo_state 0)
      @ drawn demo_env png_upload (demo_state 4))"
    unfolding demo_drawn by simp
  from distinct_uuids_give_distinct_names[OF d]
  have "distinct (file_names (events_of demo_env png_upload (demo_state 0))
        @ file_names (events_of demo_env png_upload (demo_state 4)))"
    by (rule conjunct1)
  with demo_drawn demo_file_names show ?thesis by simp
qed

section \<open>The order of the two waves\<close>

lemma wave_invariant_initial: "wave_invariant initial"
  by (simp add: wave_invariant_def initial_def)

lemma wave_invariant_main:
  assumes "wave_invariant c" and "step_main (at c) c = Some c'"
  shows "wave_invariant c'"
  using assms
  by (cases "at c")
    (auto simp: wave_invariant_def create_task_def gather_def split: if_splits)

lemma wave_invariant_task:
  assumes "wave_invariant c" and "task_step t before after c = Some c'"
    and "launched before" and "launched after" and "before \<noteq> Finished"
  shows "wave_invariant c'"
  using assms
  by (cases "at c"; cases t)
    (auto simp: wave_invariant_def task_step_def split: if_splits)

lemma wave_invariant_step:
  assumes "wave_invariant c" and "step a c = Some c'"
  shows "wave_invariant c'"
proof (cases a)
  case Main
  with assms show ?thesis using wave_invariant_main by simp
next
  case (Start t)
  with assms show ?thesis using wave_invariant_task[of c t Scheduled Running c'] by simp
next
  case (Finish t)
  with assms show ?thesis using wave_invariant_task[of c t Running Finished c'] by simp
next
  case (Fail t)
  with assms show ?thesis using wave_invariant_task[of c t Running Failed c'] by simp
qed

lemma wave_invariant_exec:
  "wave_invariant c \<Longrightarrow> exec acts c = Some c' \<Longrightarrow> wave_invariant c'"
proof (induction acts arbitrary: c)
  case Nil
  then show ?case by simp
next
  case (Cons a acts)
  from Cons.prems(2) obtain c1 where s: "step a c = Some c1" and e: "exec acts c1 = Some c'"
    by (auto split: option.splits)
  from wave_invariant_step[OF Cons.prems(1) s] have "wave_invariant c1" .
  from Cons.IH[OF this e] show ?case .
qed

lemma wave_invariant_coded: "wave_invariant c \<Longrightarrow> waves_as_coded c"
  by (cases "at c") (auto simp: wave_invariant_def waves_as_coded_def)

text \<open>
  C1, as the specification states it: the two later synthesis tasks (English and Hindi
  speech) are not launched before all three earlier tasks, the Kannada synthesis among
  them, have completed. Line 107 awaits the two translations only; the Kannada
  synthesis is awaited at line 111 together with the two later tasks. In the run
  below both translations finish while the Kannada synthesis is still running;
  \<open>process\<close> then creates the two later tasks and the English synthesis starts.
\<close>

theorem later_tasks_overlap_kannada_speech:
  "exec [Main, Main, Main, Start TransEn, Start TransHi, Start TtsKn,
         Finish TransEn, Finish TransHi, Main, Main, Main, Start TtsEn] initial
     = Some \<lparr>at = L111, trans_en_task = Finished, trans_hi_task = Finished,
             tts_kn_task = Running, tts_en_task = Running, tts_hi_task = Scheduled\<rparr>
   \<and> \<not> waves_as_specified
         \<lparr>at = L111, trans_en_task = Finished, trans_hi_task = Finished,
          tts_kn_task = Running, tts_en_task = Running, tts_hi_task = Scheduled\<rparr>"
  by (simp add: initial_def create_task_def gather_def task_step_def waves_as_specified_def)

text \<open>
  C1, as the code has it. In every state a run of lines 103-111 can reach:
  the three earlier tasks have all been created before any of them starts; the two
  later synthesis tasks are launched only when both translations have finished; and
  \<open>process\<close> has returned only when all five tasks have finished.
\<close>

theorem later_tasks_wait_for_translations:
  assumes "exec acts initial = Some c"
  shows "waves_as_coded c"
proof -
  from wave_invariant_exec[OF wave_invariant_initial assms] have "wave_invariant c" .
  then show ?thesis by (rule wave_invariant_coded)
qed

theorem later_tasks_wait_for_translations_witness:
  "exec [Main, Main, Main, Start TransEn, Start TransHi, Start TtsKn,
         Finish TransHi, Finish TransEn, Main, Main, Main, Start TtsEn, Start TtsHi,
         Finish TtsEn, Finish TtsKn, Finish TtsHi, Main] initial
     = Some \<lparr>at = Returned, trans_en_task = Finished, trans_hi_task = Finished,
             tts_kn_task = Finished, tts_en_task = Finished, tts_hi_task = Finished\<rparr>
   \<and> waves_as_coded
         \<lparr>at = Returned, trans_en_task = Finished, trans_hi_task = Finished,
          tts_kn_task = Finished, tts_en_task = Finished, tts_hi_task = Finished\<rparr>"
proof -
  have e: "exec [Main, Main, Main, Start TransEn, Start TransHi, Start TtsKn,
         Finish TransHi, Finish TransEn, Main, Main, Main, Start TtsEn, Start TtsHi,
         Finish TtsEn, Finish TtsKn, Finish TtsHi, Main] initial
     = Some \<lparr>at = Returned, trans_en_task = Finished, trans_hi_task = Finished,
             tts_kn_task = Finished, tts_en_task = Finished, tts_hi_task = Finished\<rparr>"
    by (simp add: initial_def create_task_def gather_def task_step_def)
  from later_tasks_wait_for_translations[OF e] e show ?thesis by simp
qed

end
